theory Spec2Isabelle
  imports Main
begin

section \<open>Values\<close>

text \<open>
  The backend is JavaScript over SQLite. A JavaScript value is one of the scalar JSON
  values a request can carry, or \<open>undefined\<close>. A string is the list of the bytes of its
  UTF-8 encoding. A number is the integer it denotes: numbers with a fraction are outside
  the embedding, and so are arrays and objects as property values. A timestamp, the text
  \<open>YYYY-MM-DD HH:MM:SS\<close> that \<open>CURRENT_TIMESTAMP\<close> yields, is identified with the number
  of seconds it denotes.
\<close>

datatype jsval = JUndefined | JNull | JBool bool | JNum int | JStr string

text \<open>
  A JavaScript number is a double. \<open>to_double v\<close> is the double nearest to the integer
  \<open>v\<close>: \<open>v\<close> itself when it has at most 53 significant bits, else \<open>v\<close> rounded to 53
  bits, a tie going to the even neighbour. Overflow to \<open>Infinity\<close> (above \<open>2^1024\<close>) is
  not represented: the result is then some integer above \<open>2^63\<close>, which the code under
  study treats as it treats \<open>Infinity\<close>.
\<close>

fun bits :: "nat \<Rightarrow> nat" where
  "bits n = (if n = 0 then 0 else Suc (bits (n div 2)))"

declare bits.simps [simp del]

definition round_nat :: "nat \<Rightarrow> nat" where
  "round_nat a =
     (if bits a \<le> 53 then a
      else let e = bits a - 53; q = a div 2 ^ e; r = a mod 2 ^ e; h = 2 ^ (e - 1)
           in (if h < r \<or> (r = h \<and> odd q) then q + 1 else q) * 2 ^ e)"

definition to_double :: "int \<Rightarrow> int" where
  "to_double v = (if v < 0 then - int (round_nat (nat (- v))) else int (round_nat (nat v)))"

fun truthy :: "jsval \<Rightarrow> bool" where
  "truthy JUndefined = False"
| "truthy JNull = False"
| "truthy (JBool b) = b"
| "truthy (JNum n) = (n \<noteq> 0)"
| "truthy (JStr s) = (s \<noteq> [])"

text \<open>The operator \<open>a || b\<close>.\<close>

definition js_or :: "jsval \<Rightarrow> jsval \<Rightarrow> jsval" where
  "js_or a b = (if truthy a then a else b)"

text \<open>
  A stored value. The driver binds a statement parameter as follows: a string as text,
  a number as an integer, a boolean as 0 or 1, \<open>null\<close> and \<open>undefined\<close> as NULL.
  (A number beyond 32 bits is bound as a double; the routes bind such a number only as
  a limit or an offset, see \<open>fits_int64\<close> below.) A column value comes back as text,
  number or \<open>null\<close>.
\<close>

datatype sqlval = SNull | SInt int | SText string

fun bind_param :: "jsval \<Rightarrow> sqlval" where
  "bind_param JUndefined = SNull"
| "bind_param JNull = SNull"
| "bind_param (JBool b) = SInt (if b then 1 else 0)"
| "bind_param (JNum n) = SInt n"
| "bind_param (JStr s) = SText s"

fun column_value :: "sqlval \<Rightarrow> jsval" where
  "column_value SNull = JNull"
| "column_value (SInt n) = JNum n"
| "column_value (SText s) = JStr s"

text \<open>
  Column affinity. A value written to a column declared TEXT (\<open>id\<close>, \<open>user_id\<close>,
  \<open>title\<close>, \<open>description\<close>) is stored as text: an integer becomes its decimal
  numeral. A value written to a column declared BOOLEAN (\<open>completed\<close>) has NUMERIC
  affinity: a text that reads as an integer (white space, an optional sign, digits,
  white space) and fits 64 bits is stored as that integer, any other text as it is. A
  text that reads as a number with a fraction or an exponent, or as an integer beyond 64
  bits, would be stored as a real; reals are outside the embedding.
\<close>

definition is_digit :: "char \<Rightarrow> bool" where
  "is_digit c = (48 \<le> (of_char c :: nat) \<and> (of_char c :: nat) \<le> 57)"

definition digit_value :: "char \<Rightarrow> nat" where
  "digit_value c = of_char c - 48"

definition digits_value :: "string \<Rightarrow> nat" where
  "digits_value ds = foldl (\<lambda>a c. a * 10 + digit_value c) 0 ds"

fun numeral_of :: "nat \<Rightarrow> string" where
  "numeral_of n =
     (if n < 10 then [char_of (48 + n)] else numeral_of (n div 10) @ [char_of (48 + n mod 10)])"

declare numeral_of.simps [simp del]

definition show_int :: "int \<Rightarrow> string" where
  "show_int n = (if n < 0 then CHR ''-'' # numeral_of (nat (- n)) else numeral_of (nat n))"

definition ascii_space :: "char \<Rightarrow> bool" where
  "ascii_space c = (of_char c \<in> {9::nat, 10, 11, 12, 13, 32})"

definition strip_sign :: "string \<Rightarrow> int \<times> string" where
  "strip_sign s =
     (case s of
        c # r \<Rightarrow> if c = CHR ''-'' then (- 1, r) else if c = CHR ''+'' then (1, r) else (1, s)
      | [] \<Rightarrow> (1, s))"

definition integer_literal :: "string \<Rightarrow> int option" where
  "integer_literal s =
     (let t = rev (dropWhile ascii_space (rev (dropWhile ascii_space s)));
          (sign, ds) = strip_sign t
      in if ds \<noteq> [] \<and> list_all is_digit ds then Some (sign * int (digits_value ds)) else None)"

fun text_affinity :: "sqlval \<Rightarrow> sqlval" where
  "text_affinity (SInt n) = SText (show_int n)"
| "text_affinity v = v"

fun numeric_affinity :: "sqlval \<Rightarrow> sqlval" where
  "numeric_affinity (SText s) =
     (case integer_literal s of
        None \<Rightarrow> SText s
      | Some n \<Rightarrow> if - (2 ^ 63) \<le> n \<and> n < 2 ^ 63 then SInt n else SText s)"
| "numeric_affinity v = v"

section \<open>The table \<open>todos\<close> (config/database.js)\<close>

text \<open>
  \<^verbatim>\<open>
  CREATE TABLE IF NOT EXISTS todos (
    id TEXT PRIMARY KEY,
    user_id TEXT NOT NULL,
    title TEXT NOT NULL,
    description TEXT,
    completed BOOLEAN DEFAULT 0,
    created_at DATETIME DEFAULT CURRENT_TIMESTAMP,
    updated_at DATETIME DEFAULT CURRENT_TIMESTAMP,
    FOREIGN KEY (user_id) REFERENCES users(id) ON DELETE CASCADE)
  \<close>
  The table is the list of its rows in insertion order. The two timestamps are only ever
  written by \<open>CURRENT_TIMESTAMP\<close>, so they are kept as instants.
\<close>

record row =
  row_id :: sqlval
  row_user_id :: sqlval
  row_title :: sqlval
  row_description :: sqlval
  row_completed :: sqlval
  row_created_at :: nat
  row_updated_at :: nat

datatype statement = INSERT | SELECT_BY_ID | SELECT_BY_USER | UPDATE | DELETE_FROM | SELECT_COUNT

text \<open>
  The process-wide database handle: the rows of \<open>todos\<close>, and the statements run on it
  so far (oldest first).
\<close>

record store =
  todos :: "row list"
  calls :: "statement list"

definition run :: "statement \<Rightarrow> store \<Rightarrow> store" where
  "run s st = st\<lparr>calls := calls st @ [s]\<rparr>"

datatype sqlite_error = SQLITE_CONSTRAINT | SQLITE_MISMATCH

text \<open>The comparison \<open>column = ?\<close>: never true of NULL.\<close>

definition sql_eq :: "sqlval \<Rightarrow> sqlval \<Rightarrow> bool" where
  "sql_eq a b = (a \<noteq> SNull \<and> b \<noteq> SNull \<and> a = b)"

text \<open>
  \<open>INSERT INTO todos (id, user_id, title, description, completed) VALUES (?, ?, ?, ?, ?)\<close>
  with the two timestamps defaulting to the current time. The values get the affinity
  of their columns. The statement fails on a NULL \<open>user_id\<close> or \<open>title\<close> and on an
  \<open>id\<close> that is already there.
\<close>

definition affinity :: "row \<Rightarrow> row" where
  "affinity r =
     r\<lparr>row_id := text_affinity (row_id r),
       row_user_id := text_affinity (row_user_id r),
       row_title := text_affinity (row_title r),
       row_description := text_affinity (row_description r),
       row_completed := numeric_affinity (row_completed r)\<rparr>"

definition db_insert :: "row \<Rightarrow> row list \<Rightarrow> sqlite_error + row list" where
  "db_insert r rows =
     (if row_user_id r = SNull \<or> row_title r = SNull then Inl SQLITE_CONSTRAINT
      else if list_ex (\<lambda>r'. sql_eq (row_id r') (row_id (affinity r))) rows then Inl SQLITE_CONSTRAINT
      else Inr (rows @ [affinity r]))"

text \<open>
  One assignment \<open>key = ?\<close> of an UPDATE's SET clause; the value gets the affinity of
  the column.
\<close>

definition set_column :: "string \<times> sqlval \<Rightarrow> row \<Rightarrow> row" where
  "set_column a r =
     (if fst a = ''title'' then r\<lparr>row_title := text_affinity (snd a)\<rparr>
      else if fst a = ''description'' then r\<lparr>row_description := text_affinity (snd a)\<rparr>
      else if fst a = ''completed'' then r\<lparr>row_completed := numeric_affinity (snd a)\<rparr>
      else r)"

text \<open>
  \<open>UPDATE todos SET k1 = ?, ..., updated_at = CURRENT_TIMESTAMP WHERE id = ?\<close>:
  every row with that id gets the assignments and the current time; the statement fails
  as a whole when a row would end with a NULL \<open>title\<close>.
\<close>

definition updated_row :: "(string \<times> sqlval) list \<Rightarrow> nat \<Rightarrow> row \<Rightarrow> row" where
  "updated_row assignments now r = (fold set_column assignments r)\<lparr>row_updated_at := now\<rparr>"

definition db_update ::
  "(string \<times> sqlval) list \<Rightarrow> sqlval \<Rightarrow> nat \<Rightarrow> row list \<Rightarrow> sqlite_error + row list" where
  "db_update assignments ident now rows =
     (if list_ex (\<lambda>r. sql_eq (row_id r) ident \<and> row_title (updated_row assignments now r) = SNull) rows
      then Inl SQLITE_CONSTRAINT
      else Inr (map (\<lambda>r. if sql_eq (row_id r) ident then updated_row assignments now r else r) rows))"

text \<open>\<open>DELETE FROM todos WHERE id = ?\<close>\<close>

definition db_delete :: "sqlval \<Rightarrow> row list \<Rightarrow> row list" where
  "db_delete ident rows = filter (\<lambda>r. \<not> sql_eq (row_id r) ident) rows"

text \<open>
  The WHERE clause of the two per-user queries: \<open>user_id = ?\<close>, then
  \<open>AND completed = 1\<close> for the status \<open>completed\<close>, \<open>AND completed = 0\<close> for
  \<open>pending\<close> and nothing more for any other status.
\<close>

definition where_user :: "string \<Rightarrow> string \<Rightarrow> row \<Rightarrow> bool" where
  "where_user userId status r =
     (sql_eq (row_user_id r) (SText userId) \<and>
      (if status = ''completed'' then sql_eq (row_completed r) (SInt 1)
       else if status = ''pending'' then sql_eq (row_completed r) (SInt 0)
       else True))"

text \<open>
  \<open>ORDER BY created_at DESC\<close>. SQLite leaves the order of rows with equal keys open;
  the embedding keeps them in table order.
\<close>

definition order_by_created_at_desc :: "row list \<Rightarrow> row list" where
  "order_by_created_at_desc rows = sort_key (\<lambda>r. - int (row_created_at r)) rows"

text \<open>
  \<open>LIMIT ? OFFSET ?\<close>: a negative limit is no limit, a negative offset is 0. The driver
  binds a number as a 32-bit integer when it is one and as a double otherwise, and
  SQLite takes a double for a limit or an offset only when it converts to a 64-bit
  integer without loss; otherwise the statement fails.
\<close>

definition fits_int64 :: "int \<Rightarrow> bool" where
  "fits_int64 v = (- (2 ^ 63) < v \<and> v < 2 ^ 63)"

definition limit_offset :: "int \<Rightarrow> int \<Rightarrow> 'a list \<Rightarrow> 'a list" where
  "limit_offset l off xs =
     (if l < 0 then drop (nat off) xs else take (nat l) (drop (nat off) xs))"

section \<open>The model class (models/Todo.js)\<close>

text \<open>
  An instance, and also the object a constructor call receives. A property that is
  missing is \<open>undefined\<close>.
\<close>

record todo =
  todo_id :: jsval
  user_id :: jsval
  title :: jsval
  description :: jsval
  completed :: jsval
  created_at :: jsval
  updated_at :: jsval

text \<open>
  \<^verbatim>\<open>
  constructor(data) {
    this.id = data.id || uuidv4();
    this.user_id = data.user_id;
    this.title = data.title;
    this.description = data.description || null;
    this.completed = data.completed || false;
    this.created_at = data.created_at;
    this.updated_at = data.updated_at; }
  \<close>
  The second argument is what \<open>uuidv4()\<close> returns if it is called.
\<close>

definition Todo :: "todo \<Rightarrow> string \<Rightarrow> todo" where
  "Todo data uuidv4 =
     \<lparr>todo_id = js_or (todo_id data) (JStr uuidv4),
      user_id = user_id data,
      title = title data,
      description = js_or (description data) JNull,
      completed = js_or (completed data) (JBool False),
      created_at = created_at data,
      updated_at = updated_at data\<rparr>"

text \<open>The object the driver builds from a row.\<close>

definition row_object :: "row \<Rightarrow> todo" where
  "row_object r =
     \<lparr>todo_id = column_value (row_id r),
      user_id = column_value (row_user_id r),
      title = column_value (row_title r),
      description = column_value (row_description r),
      completed = column_value (row_completed r),
      created_at = JNum (int (row_created_at r)),
      updated_at = JNum (int (row_updated_at r))\<rparr>"

text \<open>
  \<open>Todo.create(todoData)\<close>: the promise resolves with the instance built before the
  INSERT, or rejects with the driver's error.
\<close>

definition create :: "todo \<Rightarrow> string \<Rightarrow> nat \<Rightarrow> store \<Rightarrow> (sqlite_error + todo) \<times> store" where
  "create todoData uuidv4 now st =
     (let t = Todo todoData uuidv4;
          r = \<lparr>row_id = bind_param (todo_id t),
               row_user_id = bind_param (user_id t),
               row_title = bind_param (title t),
               row_description = bind_param (description t),
               row_completed = bind_param (completed t),
               row_created_at = now,
               row_updated_at = now\<rparr>
      in case db_insert r (todos st) of
           Inl err \<Rightarrow> (Inl err, run INSERT st)
         | Inr rows \<Rightarrow> (Inr t, run INSERT (st\<lparr>todos := rows\<rparr>)))"

text \<open>\<open>Todo.findById(id)\<close>: \<open>db.get\<close> hands over the first row of the result, if any.\<close>

definition select_by_id :: "string \<Rightarrow> row list \<Rightarrow> row option" where
  "select_by_id i rows = find (\<lambda>r. sql_eq (row_id r) (SText i)) rows"

definition findById :: "string \<Rightarrow> string \<Rightarrow> store \<Rightarrow> todo option \<times> store" where
  "findById i uuidv4 st =
     (case select_by_id i (todos st) of
        None \<Rightarrow> (None, run SELECT_BY_ID st)
      | Some r \<Rightarrow> (Some (Todo (row_object r) uuidv4), run SELECT_BY_ID st))"

text \<open>
  \<open>Todo.findByUserId(userId, options)\<close> with
  \<open>const { status = 'all', limit = 50, offset = 0 } = options\<close>: a default applies to
  a property that is \<open>undefined\<close> (here \<open>None\<close>). The constructor runs once per row;
  \<open>uuids i\<close> is what \<open>uuidv4()\<close> would return in the call for the row at position \<open>i\<close>.
  The promise rejects when the statement fails.
\<close>

record options =
  opt_status :: "string option"
  opt_limit :: "int option"
  opt_offset :: "int option"

definition select_by_user :: "string \<Rightarrow> options \<Rightarrow> row list \<Rightarrow> row list" where
  "select_by_user userId opts rows =
     (let status = (case opt_status opts of None \<Rightarrow> ''all'' | Some s \<Rightarrow> s);
          limit = (case opt_limit opts of None \<Rightarrow> 50 | Some l \<Rightarrow> l);
          offset = (case opt_offset opts of None \<Rightarrow> 0 | Some off \<Rightarrow> off)
      in limit_offset limit offset
           (order_by_created_at_desc (filter (where_user userId status) rows)))"

definition findByUserId ::
  "string \<Rightarrow> options \<Rightarrow> (nat \<Rightarrow> string) \<Rightarrow> store \<Rightarrow> (sqlite_error + todo list) \<times> store" where
  "findByUserId userId opts uuids st =
     (if fits_int64 (case opt_limit opts of None \<Rightarrow> 50 | Some l \<Rightarrow> l) \<and>
         fits_int64 (case opt_offset opts of None \<Rightarrow> 0 | Some off \<Rightarrow> off)
      then (Inr (map (\<lambda>(i, r). Todo (row_object r) (uuids i))
                   (enumerate 0 (select_by_user userId opts (todos st)))),
            run SELECT_BY_USER st)
      else (Inl SQLITE_MISMATCH, run SELECT_BY_USER st))"

text \<open>
  \<open>Object.assign(this, updateData)\<close> copies every property of the payload, whatever
  its name and value. A property other than the seven of the class is never read
  afterwards and is left out.
\<close>

definition set_property :: "string \<times> jsval \<Rightarrow> todo \<Rightarrow> todo" where
  "set_property p t =
     (if fst p = ''id'' then t\<lparr>todo_id := snd p\<rparr>
      else if fst p = ''user_id'' then t\<lparr>user_id := snd p\<rparr>
      else if fst p = ''title'' then t\<lparr>title := snd p\<rparr>
      else if fst p = ''description'' then t\<lparr>description := snd p\<rparr>
      else if fst p = ''completed'' then t\<lparr>completed := snd p\<rparr>
      else if fst p = ''created_at'' then t\<lparr>created_at := snd p\<rparr>
      else if fst p = ''updated_at'' then t\<lparr>updated_at := snd p\<rparr>
      else t)"

definition Object_assign :: "todo \<Rightarrow> (string \<times> jsval) list \<Rightarrow> todo" where
  "Object_assign this source = fold set_property source this"

text \<open>
  \<open>update(updateData)\<close>. The payload is the list \<open>Object.entries(updateData)\<close>.
  \<^verbatim>\<open>
  for (const [key, value] of Object.entries(updateData)) {
    if (allowedFields.includes(key) && value !== undefined) {
      updates.push(`${key} = ?`); values.push(value); } }
  if (updates.length === 0) { return this; }
  values.push(this.id);
  ... db.run(sql, values, (err) => {
        if (err) { reject(err); }
        else { Object.assign(this, updateData); resolve(this); } })
  \<close>
\<close>

definition allowedFields :: "string list" where
  "allowedFields = [''title'', ''description'', ''completed'']"

definition supplied :: "string \<times> jsval \<Rightarrow> bool" where
  "supplied p = (fst p \<in> set allowedFields \<and> snd p \<noteq> JUndefined)"

definition update ::
  "todo \<Rightarrow> (string \<times> jsval) list \<Rightarrow> nat \<Rightarrow> store \<Rightarrow> (sqlite_error + todo) \<times> store" where
  "update this updateData now st =
     (let updates = filter supplied updateData
      in if length updates = 0 then (Inr this, st)
         else case db_update (map (\<lambda>p. (fst p, bind_param (snd p))) updates)
                     (bind_param (todo_id this)) now (todos st) of
                Inl err \<Rightarrow> (Inl err, run UPDATE st)
              | Inr rows \<Rightarrow> (Inr (Object_assign this updateData), run UPDATE (st\<lparr>todos := rows\<rparr>)))"

text \<open>\<open>delete()\<close>: resolves with \<open>true\<close>.\<close>

definition delete :: "todo \<Rightarrow> store \<Rightarrow> bool \<times> store" where
  "delete this st =
     (True, run DELETE_FROM (st\<lparr>todos := db_delete (bind_param (todo_id this)) (todos st)\<rparr>))"

text \<open>\<open>Todo.getCountByUserId(userId, status = 'all')\<close>: \<open>SELECT COUNT( * )\<close> with the same WHERE clause.\<close>

definition getCountByUserId :: "string \<Rightarrow> string option \<Rightarrow> store \<Rightarrow> int \<times> store" where
  "getCountByUserId userId status st =
     (int (length (filter (where_user userId (case status of None \<Rightarrow> ''all'' | Some s \<Rightarrow> s))
                          (todos st))),
      run SELECT_COUNT st)"

text \<open>\<open>belongsToUser(userId)\<close>: \<open>this.user_id === userId\<close>\<close>

definition belongsToUser :: "todo \<Rightarrow> jsval \<Rightarrow> bool" where
  "belongsToUser this userId = (user_id this = userId)"

text \<open>\<open>toJSON()\<close>: the seven properties, with \<open>completed: Boolean(this.completed)\<close>.\<close>

definition toJSON :: "todo \<Rightarrow> todo" where
  "toJSON this = this\<lparr>completed := JBool (truthy (completed this))\<rparr>"

section \<open>Query validation (middleware/validation.js)\<close>

text \<open>
  \<open>parseInt(string)\<close> without a radix, as ECMAScript defines it: leading white space
  is skipped, a sign is read, a prefix \<open>0x\<close> or \<open>0X\<close> selects radix 16, and the
  longest run of digits of the radix is the value, as a double; what follows is
  ignored. With no digit the result is \<open>NaN\<close>, here \<open>None\<close>.

  White space is what ECMAScript counts as such: the characters U+0009 to U+000D and
  U+0020 (one byte each), U+00A0 (two bytes), and U+1680, U+2000 to U+200A, U+2028,
  U+2029, U+202F, U+205F, U+3000 and U+FEFF (three bytes each).
\<close>

definition space1 :: "char \<Rightarrow> bool" where
  "space1 a = (of_char a \<in> {9::nat, 10, 11, 12, 13, 32})"

definition space2 :: "char \<Rightarrow> char \<Rightarrow> bool" where
  "space2 a b = ((of_char a :: nat) = 194 \<and> (of_char b :: nat) = 160)"

definition space3 :: "char \<Rightarrow> char \<Rightarrow> char \<Rightarrow> bool" where
  "space3 a b c =
     (let x = (of_char a :: nat); y = (of_char b :: nat); z = (of_char c :: nat)
      in (x = 225 \<and> y = 154 \<and> z = 128) \<or>
         (x = 226 \<and> y = 128 \<and> (128 \<le> z \<and> z \<le> 138 \<or> z = 168 \<or> z = 169 \<or> z = 175)) \<or>
         (x = 226 \<and> y = 129 \<and> z = 159) \<or>
         (x = 227 \<and> y = 128 \<and> z = 128) \<or>
         (x = 239 \<and> y = 187 \<and> z = 191))"

fun trim_start :: "string \<Rightarrow> string" where
  "trim_start (a # b # c # s) =
     (if space1 a then trim_start (b # c # s)
      else if space2 a b then trim_start (c # s)
      else if space3 a b c then trim_start s
      else a # b # c # s)"
| "trim_start [a, b] = (if space1 a then trim_start [b] else if space2 a b then [] else [a, b])"
| "trim_start [a] = (if space1 a then [] else [a])"
| "trim_start [] = []"

definition digit_of :: "char \<Rightarrow> nat" where
  "digit_of c =
     (let n = (of_char c :: nat)
      in if 48 \<le> n \<and> n \<le> 57 then n - 48
         else if 97 \<le> n \<and> n \<le> 122 then n - 87
         else if 65 \<le> n \<and> n \<le> 90 then n - 55
         else 36)"

definition strip_prefix :: "string \<Rightarrow> nat \<times> string" where
  "strip_prefix s =
     (case s of
        c # d # r \<Rightarrow> if c = CHR ''0'' \<and> (d = CHR ''x'' \<or> d = CHR ''X'') then (16, r) else (10, s)
      | _ \<Rightarrow> (10, s))"

definition parseInt :: "string \<Rightarrow> int option" where
  "parseInt s =
     (let (sign, s1) = strip_sign (trim_start s);
          (radix, s2) = strip_prefix s1;
          ds = takeWhile (\<lambda>c. digit_of c < radix) s2
      in if ds = [] then None
         else Some (to_double (sign * int (foldl (\<lambda>a c. a * radix + digit_of c) 0 ds))))"

text \<open>
  A decimal integer, which is what a claim about a numeric parameter has in mind: one or
  more digits, with or without a minus sign before them; and the integer it denotes.
\<close>

definition decimal :: "string \<Rightarrow> bool" where
  "decimal s =
     (s \<noteq> [] \<and>
      (if hd s = CHR ''-'' then tl s \<noteq> [] \<and> list_all is_digit (tl s) else list_all is_digit s))"

definition decimal_value :: "string \<Rightarrow> int" where
  "decimal_value s =
     (if hd s = CHR ''-'' then - int (digits_value (tl s)) else int (digits_value s))"

section \<open>Responses\<close>

text \<open>
  The envelope of a response: the HTTP status, the \<open>code\<close> of an error and the
  \<open>data\<close>. The \<open>message\<close> text is left out, and \<open>success\<close> is the absence of a code.
\<close>

record pagination =
  p_total :: int
  p_limit :: int
  p_offset :: int
  p_hasMore :: bool

datatype body = NoData | Errors "string list" | TodoData todo | TodosData "todo list" pagination

record response =
  status :: nat
  code :: "string option"
  data :: body

definition failure :: "nat \<Rightarrow> string \<Rightarrow> response" where
  "failure s c = \<lparr>status = s, code = Some c, data = NoData\<rparr>"

definition success :: "nat \<Rightarrow> body \<Rightarrow> response" where
  "success s d = \<lparr>status = s, code = None, data = d\<rparr>"

text \<open>
  \<open>validateTodoQuery\<close>. A query parameter is a string or missing (one that is
  repeated or bracketed, which arrives as an array or an object, is outside the
  embedding); \<open>if (limit)\<close> holds of a string that is not empty. The result is the
  response sent, or the query as the handler finds it after \<open>next()\<close>.
\<close>

record raw_query =
  rq_status :: "string option"
  rq_limit :: "string option"
  rq_offset :: "string option"

record query =
  q_status :: "string option"
  q_limit :: int
  q_offset :: int

definition given :: "string option \<Rightarrow> bool" where
  "given p = (case p of None \<Rightarrow> False | Some s \<Rightarrow> s \<noteq> [])"

definition validateTodoQuery :: "raw_query \<Rightarrow> response + query" where
  "validateTodoQuery q =
     (if given (rq_status q) \<and> the (rq_status q) \<notin> set [''all'', ''completed'', ''pending'']
      then Inl (failure 400 ''INVALID_STATUS'')
      else if given (rq_limit q) \<and>
              (case parseInt (the (rq_limit q)) of None \<Rightarrow> True | Some limitNum \<Rightarrow> limitNum < 1 \<or> limitNum > 100)
      then Inl (failure 400 ''INVALID_LIMIT'')
      else if given (rq_offset q) \<and>
              (case parseInt (the (rq_offset q)) of None \<Rightarrow> True | Some offsetNum \<Rightarrow> offsetNum < 0)
      then Inl (failure 400 ''INVALID_OFFSET'')
      else Inr \<lparr>q_status = rq_status q,
                q_limit = (if given (rq_limit q) then the (parseInt (the (rq_limit q))) else 50),
                q_offset = (if given (rq_offset q) then the (parseInt (the (rq_offset q))) else 0)\<rparr>)"

text \<open>
  \<open>handleValidationErrors\<close>, the last link of a validation chain: with errors it sends
  400, without it calls \<open>next()\<close> (\<open>None\<close>).
\<close>

definition handleValidationErrors :: "string list \<Rightarrow> response option" where
  "handleValidationErrors errors =
     (if errors \<noteq> [] then Some \<lparr>status = 400, code = Some ''VALIDATION_ERROR'', data = Errors errors\<rparr>
      else None)"

section \<open>Pagination (utils/helpers.js)\<close>

text \<open>
  \<open>calculatePagination(total, limit, offset)\<close>, which no route calls. The sum is a
  double. A page number that is not finite (\<open>limit\<close> 0) is \<open>None\<close>; the page numbers
  are those the code computes for arguments below \<open>2^53\<close>.
\<close>

record page_info =
  pg_total :: int
  pg_limit :: int
  pg_offset :: int
  currentPage :: "int option"
  totalPages :: "int option"
  hasNext :: bool
  hasPrev :: bool
  hasMore :: bool

definition calculatePagination :: "int \<Rightarrow> int \<Rightarrow> int \<Rightarrow> page_info" where
  "calculatePagination total_items limit offset =
     (let hasNext = (to_double (offset + limit) < total_items)
      in \<lparr>pg_total = total_items, pg_limit = limit, pg_offset = offset,
          currentPage = (if limit = 0 then None else Some (offset div limit + 1)),
          totalPages = (if limit = 0 then None else Some (- ((- total_items) div limit))),
          hasNext = hasNext,
          hasPrev = (offset > 0),
          hasMore = hasNext\<rparr>)"

section \<open>The handlers (routes/todos.js)\<close>

text \<open>A property of a request body; a missing one is \<open>undefined\<close>.\<close>

definition property :: "(string \<times> jsval) list \<Rightarrow> string \<Rightarrow> jsval" where
  "property obj k = (case map_of obj k of None \<Rightarrow> JUndefined | Some v \<Rightarrow> v)"

text \<open>
  Each handler gets the caller's identifier \<open>req.user.id\<close>, what the request carries,
  and the store; it returns the response and the store it leaves. A rejected promise
  is caught and answered with 500. In the GET handler, \<open>parseInt(limit)\<close> and
  \<open>parseInt(offset)\<close> read back the numbers the validation stored, unchanged (the
  listing has failed before for an offset of \<open>2^63\<close> or more), and their sum is a double.
\<close>

definition get_todos :: "string \<Rightarrow> query \<Rightarrow> (nat \<Rightarrow> string) \<Rightarrow> store \<Rightarrow> response \<times> store" where
  "get_todos userId q uuids st =
     (case findByUserId userId
             \<lparr>opt_status = q_status q, opt_limit = Some (q_limit q),
              opt_offset = Some (q_offset q)\<rparr> uuids st of
        (Inl err, st1) \<Rightarrow> (failure 500 ''GET_TODOS_ERROR'', st1)
      | (Inr ts, st1) \<Rightarrow>
          (let (totalCount, st2) = getCountByUserId userId (q_status q) st1
           in (success 200
                 (TodosData (map toJSON ts)
                    \<lparr>p_total = totalCount, p_limit = q_limit q, p_offset = q_offset q,
                     p_hasMore = (to_double (q_offset q + q_limit q) < totalCount)\<rparr>),
               st2)))"

text \<open>The object \<open>{ user_id: userId, title, description }\<close> that the POST handler builds.\<close>

definition todoData :: "string \<Rightarrow> jsval \<Rightarrow> jsval \<Rightarrow> todo" where
  "todoData userId ti d =
     \<lparr>todo_id = JUndefined, user_id = JStr userId, title = ti, description = d,
      completed = JUndefined, created_at = JUndefined, updated_at = JUndefined\<rparr>"

definition post_todo ::
  "string \<Rightarrow> (string \<times> jsval) list \<Rightarrow> string \<Rightarrow> nat \<Rightarrow> store \<Rightarrow> response \<times> store" where
  "post_todo userId req_body uuidv4 now st =
     (case create (todoData userId (property req_body ''title'') (property req_body ''description''))
                 uuidv4 now st of
        (Inr t, st1) \<Rightarrow> (success 201 (TodoData (toJSON t)), st1)
      | (Inl err, st1) \<Rightarrow> (failure 500 ''CREATE_TODO_ERROR'', st1))"

definition get_todo :: "string \<Rightarrow> string \<Rightarrow> string \<Rightarrow> store \<Rightarrow> response \<times> store" where
  "get_todo userId ident uuidv4 st =
     (case findById ident uuidv4 st of
        (None, st1) \<Rightarrow> (failure 404 ''TODO_NOT_FOUND'', st1)
      | (Some t, st1) \<Rightarrow>
          if \<not> belongsToUser t (JStr userId) then (failure 403 ''ACCESS_DENIED'', st1)
          else (success 200 (TodoData (toJSON t)), st1))"

definition put_todo ::
  "string \<Rightarrow> string \<Rightarrow> (string \<times> jsval) list \<Rightarrow> string \<Rightarrow> nat \<Rightarrow> store \<Rightarrow> response \<times> store" where
  "put_todo userId ident updateData uuidv4 now st =
     (case findById ident uuidv4 st of
        (None, st1) \<Rightarrow> (failure 404 ''TODO_NOT_FOUND'', st1)
      | (Some t, st1) \<Rightarrow>
          if \<not> belongsToUser t (JStr userId) then (failure 403 ''ACCESS_DENIED'', st1)
          else (case update t updateData now st1 of
                  (Inr updatedTodo, st2) \<Rightarrow> (success 200 (TodoData (toJSON updatedTodo)), st2)
                | (Inl err, st2) \<Rightarrow> (failure 500 ''UPDATE_TODO_ERROR'', st2)))"

definition delete_todo :: "string \<Rightarrow> string \<Rightarrow> string \<Rightarrow> store \<Rightarrow> response \<times> store" where
  "delete_todo userId ident uuidv4 st =
     (case findById ident uuidv4 st of
        (None, st1) \<Rightarrow> (failure 404 ''TODO_NOT_FOUND'', st1)
      | (Some t, st1) \<Rightarrow>
          if \<not> belongsToUser t (JStr userId) then (failure 403 ''ACCESS_DENIED'', st1)
          else (success 200 NoData, snd (delete t st1)))"

section \<open>The gate and the router\<close>

text \<open>
  Modelled from the spec: the middleware \<open>authenticateToken\<close> of middleware/auth.js, which
  is not among the sources. The spec (4.3): extract a bearer token from a designated
  header; if absent, fail with UNAUTHENTICATED; if present, verify it; on failure, fail
  with UNAUTHENTICATED, whatever the reason; on success, resolve the user identifier to
  a live user record, failing with UNAUTHENTICATED if there is none, and make that
  identity available to the handlers. Verification and the user table are parameters.
\<close>

datatype verify_error = MALFORMED | SIGNATURE_INVALID | EXPIRED

record user =
  uid :: string
  username :: string
  email :: string

definition bearer :: "string option \<Rightarrow> string option" where
  "bearer header =
     (case header of
        None \<Rightarrow> None
      | Some h \<Rightarrow> if take 7 h = ''Bearer '' \<and> drop 7 h \<noteq> [] then Some (drop 7 h) else None)"

definition authenticateToken ::
  "(string \<Rightarrow> verify_error + string) \<Rightarrow> (string \<Rightarrow> user option) \<Rightarrow> string option \<Rightarrow> response + user" where
  "authenticateToken verify findUser header =
     (case bearer header of
        None \<Rightarrow> Inl (failure 401 ''UNAUTHENTICATED'')
      | Some token \<Rightarrow>
          (case verify token of
             Inl reason \<Rightarrow> Inl (failure 401 ''UNAUTHENTICATED'')
           | Inr userId \<Rightarrow>
               (case findUser userId of
                  None \<Rightarrow> Inl (failure 401 ''UNAUTHENTICATED'')
                | Some u \<Rightarrow> Inr u)))"

text \<open>
  What the router depends on and the sources do not define: token verification and
  the user table (for the gate), what the two validation chains of the express-validator
  library report for a body (the error messages, and the body as sanitised), the
  identifiers \<open>uuidv4()\<close> yields and the clock.
\<close>

record env =
  env_verify :: "string \<Rightarrow> verify_error + string"
  env_findUser :: "string \<Rightarrow> user option"
  validateTodoCreation :: "(string \<times> jsval) list \<Rightarrow> string list \<times> (string \<times> jsval) list"
  validateTodoUpdate :: "(string \<times> jsval) list \<Rightarrow> string list \<times> (string \<times> jsval) list"
  env_uuids :: "nat \<Rightarrow> string"
  env_now :: nat

datatype http_method = GET | POST | PUT | DELETE | OTHER

text \<open>
  A request as it reaches the router mounted at /api/todos: the path is the list of
  segments below the mount point, so \<open>[]\<close> is \<open>/\<close> and \<open>[i]\<close> is \<open>/:id\<close> with \<open>id = i\<close>
  (a parameter is never empty).
\<close>

record request =
  req_method :: http_method
  req_path :: "string list"
  authorization :: "string option"
  req_query :: raw_query
  req_body :: "(string \<times> jsval) list"

text \<open>
  The routes in the order of their registration, for a request the gate has let
  through as \<open>u\<close>. \<open>None\<close>: no route matches and the request leaves the router.
\<close>

definition routes :: "env \<Rightarrow> user \<Rightarrow> request \<Rightarrow> store \<Rightarrow> response option \<times> store" where
  "routes e u req st =
     (if req_method req = GET \<and> req_path req = [] then
        (case validateTodoQuery (req_query req) of
           Inl resp \<Rightarrow> (Some resp, st)
         | Inr q \<Rightarrow> (let (resp, st1) = get_todos (uid u) q (env_uuids e) st in (Some resp, st1)))
      else if req_method req = POST \<and> req_path req = [] then
        (let (errors, b) = validateTodoCreation e (req_body req)
         in case handleValidationErrors errors of
              Some resp \<Rightarrow> (Some resp, st)
            | None \<Rightarrow> (let (resp, st1) = post_todo (uid u) b (env_uuids e 0) (env_now e) st in (Some resp, st1)))
      else if req_method req = GET \<and> length (req_path req) = 1 \<and> hd (req_path req) \<noteq> [] then
        (let (resp, st1) = get_todo (uid u) (hd (req_path req)) (env_uuids e 0) st in (Some resp, st1))
      else if req_method req = PUT \<and> length (req_path req) = 1 \<and> hd (req_path req) \<noteq> [] then
        (let (errors, b) = validateTodoUpdate e (req_body req)
         in case handleValidationErrors errors of
              Some resp \<Rightarrow> (Some resp, st)
            | None \<Rightarrow> (let (resp, st1) = put_todo (uid u) (hd (req_path req)) b (env_uuids e 0) (env_now e) st
                       in (Some resp, st1)))
      else if req_method req = DELETE \<and> length (req_path req) = 1 \<and> hd (req_path req) \<noteq> [] then
        (let (resp, st1) = delete_todo (uid u) (hd (req_path req)) (env_uuids e 0) st in (Some resp, st1))
      else (None, st))"

text \<open>\<open>router.use(authenticateToken)\<close> comes first, then the routes.\<close>

definition router :: "env \<Rightarrow> request \<Rightarrow> store \<Rightarrow> response option \<times> store" where
  "router e req st =
     (case authenticateToken (env_verify e) (env_findUser e) (authorization req) of
        Inl resp \<Rightarrow> (Some resp, st)
      | Inr u \<Rightarrow> routes e u req st)"

section \<open>Well-formed tables\<close>

text \<open>\<open>id TEXT PRIMARY KEY\<close>: no two rows share an id that is not NULL.\<close>

definition primary_key :: "row list \<Rightarrow> bool" where
  "primary_key rows = distinct (map row_id (filter (\<lambda>r. row_id r \<noteq> SNull) rows))"

text \<open>
  The shape of a row as \<open>create\<close> writes it: its id is a text that is not empty (as
  \<open>uuidv4()\<close> yields it) and its \<open>completed\<close> is 0 or 1 (a boolean, bound). An update
  keeps it when the \<open>completed\<close> it is given is a boolean.
\<close>

definition row_ok :: "row \<Rightarrow> bool" where
  "row_ok r = (truthy (column_value (row_id r)) \<and> (row_completed r = SInt 0 \<or> row_completed r = SInt 1))"

section \<open>Example data\<close>

definition example_row :: "string \<Rightarrow> string \<Rightarrow> int \<Rightarrow> nat \<Rightarrow> row" where
  "example_row i owner done t =
     \<lparr>row_id = SText i, row_user_id = SText owner, row_title = SText ''Buy milk'',
      row_description = SNull, row_completed = SInt done, row_created_at = t, row_updated_at = t\<rparr>"

definition example_store :: store where
  "example_store =
     \<lparr>todos = [example_row ''a1'' ''alice'' 0 10, example_row ''b1'' ''bob'' 1 20,
               example_row ''a2'' ''alice'' 1 30, example_row ''a3'' ''alice'' 0 40],
      calls = []\<rparr>"

definition example_env :: env where
  "example_env =
     \<lparr>env_verify = (\<lambda>token. if token = ''t-alice'' then Inr ''alice'' else Inl SIGNATURE_INVALID),
      env_findUser = (\<lambda>i. if i = ''alice'' then Some \<lparr>uid = ''alice'', username = ''alice'', email = ''a@x.com''\<rparr> else None),
      validateTodoCreation = (\<lambda>b. ([], b)),
      validateTodoUpdate = (\<lambda>b. ([], b)),
      env_uuids = (\<lambda>k. ''u''),
      env_now = 99\<rparr>"

definition example_request :: request where
  "example_request =
     \<lparr>req_method = DELETE, req_path = [''a1''], authorization = Some ''Bearer forged'',
      req_query = \<lparr>rq_status = None, rq_limit = None, rq_offset = None\<rparr>, req_body = []\<rparr>"

definition ten_store :: store where
  "ten_store =
     \<lparr>todos = [example_row ''t0'' ''alice'' 0 100, example_row ''t1'' ''alice'' 1 101,
               example_row ''t2'' ''alice'' 0 102, example_row ''b1'' ''bob'' 0 103,
               example_row ''t3'' ''alice'' 1 104, example_row ''t4'' ''alice'' 0 105,
               example_row ''t5'' ''alice'' 1 106, example_row ''t6'' ''alice'' 0 107,
               example_row ''t7'' ''alice'' 1 108, example_row ''t8'' ''alice'' 0 109,
               example_row ''t9'' ''alice'' 1 110],
      calls = []\<rparr>"

definition example_get :: "raw_query \<Rightarrow> request" where
  "example_get q =
     \<lparr>req_method = GET, req_path = [], authorization = Some ''Bearer t-alice'',
      req_query = q, req_body = []\<rparr>"

text \<open>
  \<^verbatim>\<open>PUT /api/todos/a1\<close> by alice with the body \<^verbatim>\<open>{"completed": "true"}\<close>, which
  \<open>isBoolean()\<close> passes.
\<close>

definition example_put :: request where
  "example_put =
     \<lparr>req_method = PUT, req_path = [''a1''], authorization = Some ''Bearer t-alice'',
      req_query = \<lparr>rq_status = None, rq_limit = None, rq_offset = None\<rparr>,
      req_body = [(''completed'', JStr ''true'')]\<rparr>"

section \<open>Basic facts\<close>

lemma todos_run [simp]: "todos (run s st) = todos st"
  by (simp add: run_def)

lemma calls_run [simp]: "calls (run s st) = calls st @ [s]"
  by (simp add: run_def)

lemma column_value_JStr [simp]: "column_value v = JStr s \<longleftrightarrow> v = SText s"
  by (cases v) auto

lemma sql_eq_SText [simp]: "sql_eq v (SText s) \<longleftrightarrow> v = SText s"
  by (auto simp: sql_eq_def)

lemma belongsToUser_row [simp]:
  "belongsToUser (Todo (row_object r) u) (JStr userId) \<longleftrightarrow> row_user_id r = SText userId"
  by (simp add: belongsToUser_def Todo_def row_object_def)

lemma status_failure [simp]: "status (failure s c) = s" "code (failure s c) = Some c" "data (failure s c) = NoData"
  by (simp_all add: failure_def)

lemma status_success [simp]: "status (success s d) = s" "code (success s d) = None" "data (success s d) = d"
  by (simp_all add: success_def)

lemma select_by_id_Some:
  "select_by_id i rows = Some r \<Longrightarrow> r \<in> set rows \<and> row_id r = SText i"
  by (auto simp: select_by_id_def find_Some_iff)

lemma select_by_id_None:
  "select_by_id i rows = None \<longleftrightarrow> (\<forall>r \<in> set rows. row_id r \<noteq> SText i)"
  by (auto simp: select_by_id_def find_None_iff)

lemma primary_key_unique:
  assumes "primary_key rows" "r \<in> set rows" "r' \<in> set rows" "row_id r = SText i" "row_id r' = SText i"
  shows "r = r'"
proof -
  have "inj_on row_id (set (filter (\<lambda>r. row_id r \<noteq> SNull) rows))"
    using assms(1) by (simp add: primary_key_def distinct_map)
  moreover have "r \<in> set (filter (\<lambda>r. row_id r \<noteq> SNull) rows)" "r' \<in> set (filter (\<lambda>r. row_id r \<noteq> SNull) rows)"
    using assms by auto
  ultimately show ?thesis using assms(4,5) by (simp add: inj_on_def)
qed

lemma todo_id_row:
  "row_id r = SText i \<Longrightarrow> i \<noteq> [] \<Longrightarrow> todo_id (Todo (row_object r) u) = JStr i"
  by (simp add: Todo_def row_object_def js_or_def)

lemma user_id_fold_set_column [simp]:
  "row_user_id (fold set_column a r) = row_user_id r"
  "row_id (fold set_column a r) = row_id r"
  "row_created_at (fold set_column a r) = row_created_at r"
  "row_updated_at (fold set_column a r) = row_updated_at r"
  by (induction a arbitrary: r; simp add: set_column_def)+

lemma updated_row_keeps [simp]:
  "row_user_id (updated_row a n r) = row_user_id r"
  "row_id (updated_row a n r) = row_id r"
  "row_created_at (updated_row a n r) = row_created_at r"
  "row_updated_at (updated_row a n r) = n"
  by (simp_all add: updated_row_def)

lemma filter_map_frame:
  assumes "\<And>r. r \<in> set rows \<Longrightarrow> M r \<Longrightarrow> \<not> P r" "\<And>r. \<not> P (f r) \<longleftrightarrow> \<not> P r"
  shows "filter P (map (\<lambda>r. if M r then f r else r) rows) = filter P rows"
  using assms by (induction rows) auto

lemma filter_filter_frame:
  assumes "\<And>r. r \<in> set rows \<Longrightarrow> M r \<Longrightarrow> \<not> P r"
  shows "filter P (filter (\<lambda>r. \<not> M r) rows) = filter P rows"
  using assms by (induction rows) auto

lemma db_update_frame:
  assumes "\<And>r. r \<in> set rows \<Longrightarrow> sql_eq (row_id r) v \<Longrightarrow> row_user_id r = SText userId"
    and "db_update a v n rows = Inr rows'"
  shows "filter (\<lambda>r. row_user_id r \<noteq> SText userId) rows' = filter (\<lambda>r. row_user_id r \<noteq> SText userId) rows"
proof -
  have "rows' = map (\<lambda>r. if sql_eq (row_id r) v then updated_row a n r else r) rows"
    using assms(2) by (simp add: db_update_def split: if_splits)
  then show ?thesis using assms(1) by (simp add: filter_map_frame)
qed

lemma db_delete_frame:
  assumes "\<And>r. r \<in> set rows \<Longrightarrow> sql_eq (row_id r) v \<Longrightarrow> row_user_id r = SText userId"
  shows "filter (\<lambda>r. row_user_id r \<noteq> SText userId) (db_delete v rows) = filter (\<lambda>r. row_user_id r \<noteq> SText userId) rows"
  using assms by (induction rows) (auto simp: db_delete_def)

lemma get_todo_isolation:
  "(\<forall>j. data (fst (get_todo userId i u st)) = TodoData j \<longrightarrow> user_id j = JStr userId) \<and>
   (status (fst (get_todo userId i u st)) = 200 \<longrightarrow>
      (\<exists>r. select_by_id i (todos st) = Some r \<and> row_user_id r = SText userId)) \<and>
   todos (snd (get_todo userId i u st)) = todos st"
  by (auto simp: get_todo_def findById_def toJSON_def belongsToUser_def Todo_def row_object_def split: option.splits)

lemma update_rows:
  "update t b n st = (res, st') \<Longrightarrow> todos st' \<noteq> todos st \<Longrightarrow>
     db_update (map (\<lambda>p. (fst p, bind_param (snd p))) (filter supplied b)) (bind_param (todo_id t)) n (todos st) = Inr (todos st')"
  by (auto simp: update_def Let_def split: if_splits sum.splits)

lemma put_todo_found:
  "(status (fst (put_todo userId i b u n st)) = 200 \<or> todos (snd (put_todo userId i b u n st)) \<noteq> todos st) \<longrightarrow>
     (\<exists>r. select_by_id i (todos st) = Some r \<and> row_user_id r = SText userId)"
  by (auto simp: put_todo_def findById_def split: option.splits prod.splits sum.splits)

lemma put_todo_frame:
  assumes pk: "primary_key (todos st)" and i: "i \<noteq> []"
  shows "filter (\<lambda>r. row_user_id r \<noteq> SText userId) (todos (snd (put_todo userId i b u n st)))
       = filter (\<lambda>r. row_user_id r \<noteq> SText userId) (todos st)"
proof (cases "todos (snd (put_todo userId i b u n st)) = todos st")
  case True
  then show ?thesis by simp
next
  case False
  then obtain r where r: "select_by_id i (todos st) = Some r" "row_user_id r = SText userId"
    using put_todo_found by blast
  have rin: "r \<in> set (todos st)" "row_id r = SText i" using r(1) by (auto dest: select_by_id_Some)
  obtain res st' where up: "update (Todo (row_object r) u) b n (run SELECT_BY_ID st) = (res, st')"
    by (cases "update (Todo (row_object r) u) b n (run SELECT_BY_ID st)") auto
  have snd: "snd (put_todo userId i b u n st) = st'"
    using r up by (auto simp: put_todo_def findById_def split: sum.splits)
  have "todos st' \<noteq> todos (run SELECT_BY_ID st)" using False snd by simp
  from update_rows[OF up this]
  have "db_update (map (\<lambda>p. (fst p, bind_param (snd p))) (filter supplied b)) (SText i) n (todos st) = Inr (todos st')"
    using rin i by (simp add: todo_id_row)
  moreover have "\<And>r'. r' \<in> set (todos st) \<Longrightarrow> sql_eq (row_id r') (SText i) \<Longrightarrow> row_user_id r' = SText userId"
    using primary_key_unique[OF pk _ rin(1) _ rin(2)] r(2) by auto
  ultimately show ?thesis using snd db_update_frame by blast
qed

lemma delete_todo_found:
  "(status (fst (delete_todo userId i u st)) = 200 \<or> todos (snd (delete_todo userId i u st)) \<noteq> todos st) \<longrightarrow>
     (\<exists>r. select_by_id i (todos st) = Some r \<and> row_user_id r = SText userId)"
  by (auto simp: delete_todo_def findById_def split: option.splits prod.splits sum.splits)

lemma delete_todo_frame:
  assumes pk: "primary_key (todos st)" and i: "i \<noteq> []"
  shows "filter (\<lambda>r. row_user_id r \<noteq> SText userId) (todos (snd (delete_todo userId i u st)))
       = filter (\<lambda>r. row_user_id r \<noteq> SText userId) (todos st)"
proof (cases "todos (snd (delete_todo userId i u st)) = todos st")
  case True
  then show ?thesis by simp
next
  case False
  then obtain r where r: "select_by_id i (todos st) = Some r" "row_user_id r = SText userId"
    using delete_todo_found by blast
  have rin: "r \<in> set (todos st)" "row_id r = SText i" using r(1) by (auto dest: select_by_id_Some)
  have snd: "todos (snd (delete_todo userId i u st)) = db_delete (SText i) (todos st)"
    using r rin i by (simp add: delete_todo_def findById_def delete_def todo_id_row)
  moreover have "\<And>r'. r' \<in> set (todos st) \<Longrightarrow> sql_eq (row_id r') (SText i) \<Longrightarrow> row_user_id r' = SText userId"
    using primary_key_unique[OF pk _ rin(1) _ rin(2)] r(2) by auto
  ultimately show ?thesis using db_delete_frame[of "todos st" "SText i" userId] by simp
qed

lemma set_limit_offset: "set (limit_offset l off xs) \<subseteq> set xs"
  by (auto simp: limit_offset_def dest: in_set_takeD in_set_dropD)

lemma select_by_user_elem:
  "r \<in> set (select_by_user userId opts rows) \<Longrightarrow>
     r \<in> set rows \<and> where_user userId (case opt_status opts of None \<Rightarrow> ''all'' | Some s \<Rightarrow> s) r"
  using set_limit_offset[of _ _ "order_by_created_at_desc (filter (where_user userId (case opt_status opts of None \<Rightarrow> ''all'' | Some s \<Rightarrow> s)) rows)"]
  by (auto simp: select_by_user_def order_by_created_at_desc_def Let_def)

lemma findByUserId_Inr:
  "fst (findByUserId userId opts uuids st) = Inr ts \<Longrightarrow>
     ts = map (\<lambda>(i, r). Todo (row_object r) (uuids i))
            (enumerate 0 (select_by_user userId opts (todos st)))"
  by (auto simp: findByUserId_def split: if_splits)

lemma findByUserId_elem:
  assumes "fst (findByUserId userId opts uuids st) = Inr ts" "t \<in> set ts"
  shows "\<exists>r k. r \<in> set (select_by_user userId opts (todos st)) \<and> t = Todo (row_object r) (uuids k)"
proof -
  obtain a where "a < length (select_by_user userId opts (todos st))"
    "t = Todo (row_object (select_by_user userId opts (todos st) ! a)) (uuids a)"
    using assms(2) unfolding findByUserId_Inr[OF assms(1)] by (auto simp: in_set_enumerate_eq)
  then show ?thesis using nth_mem by blast
qed

lemma findByUserId_store [simp]: "snd (findByUserId userId opts uuids st) = run SELECT_BY_USER st"
  by (simp add: findByUserId_def)

lemma getCountByUserId_store [simp]: "snd (getCountByUserId userId s st) = run SELECT_COUNT st"
  by (simp add: getCountByUserId_def)

lemma user_id_Todo_row [simp]: "user_id (Todo (row_object r) u) = column_value (row_user_id r)"
  by (simp add: Todo_def row_object_def)

lemma user_id_toJSON [simp]: "user_id (toJSON t) = user_id t"
  by (simp add: toJSON_def)

lemma get_todos_isolation:
  "(\<forall>js p. data (fst (get_todos userId q uuids st)) = TodosData js p \<longrightarrow>
       (\<forall>j \<in> set js. user_id j = JStr userId)) \<and>
   todos (snd (get_todos userId q uuids st)) = todos st"
proof -
  let ?opts = "\<lparr>opt_status = q_status q, opt_limit = Some (q_limit q), opt_offset = Some (q_offset q)\<rparr>"
  have own: "\<And>ts t. fst (findByUserId userId ?opts uuids st) = Inr ts \<Longrightarrow> t \<in> set ts \<Longrightarrow>
               user_id t = JStr userId"
    by (auto dest!: findByUserId_elem select_by_user_elem simp: where_user_def)
  obtain res st1 where f: "findByUserId userId ?opts uuids st = (res, st1)"
    by (cases "findByUserId userId ?opts uuids st") auto
  have st1: "st1 = run SELECT_BY_USER st"
    using f findByUserId_store[of userId ?opts uuids st] by simp
  show ?thesis
  proof (cases res)
    case (Inl err)
    then show ?thesis using f st1 by (simp add: get_todos_def)
  next
    case (Inr ts)
    obtain c st2 where g: "getCountByUserId userId (q_status q) st1 = (c, st2)"
      by (cases "getCountByUserId userId (q_status q) st1") auto
    have st2: "st2 = run SELECT_COUNT st1"
      using g getCountByUserId_store[of userId "q_status q" st1] by simp
    have "\<And>t. t \<in> set ts \<Longrightarrow> user_id t = JStr userId"
      using own[of ts] f Inr by simp
    then show ?thesis using f Inr g st1 st2 by (auto simp: get_todos_def)
  qed
qed

section \<open>An update that supplies nothing\<close>

text \<open>
  C10. For every Todo, \<open>update\<close> with a payload that has no defined value for any of
  \<open>title\<close>, \<open>description\<close> and \<open>completed\<close> (other properties may be there) runs no
  statement at all, leaves the store as it is and returns the Todo as it is.
\<close>

theorem update_without_defined_value:
  assumes "\<forall>p \<in> set updateData. fst p \<in> set allowedFields \<longrightarrow> snd p = JUndefined"
  shows "update this updateData now st = (Inr this, st)"
proof -
  have "filter supplied updateData = []"
    using assms by (auto simp: filter_empty_conv supplied_def)
  then show ?thesis by (simp add: update_def)
qed

theorem update_without_defined_value_witness:
  "update (Todo (row_object (example_row ''a1'' ''alice'' 0 10)) ''u'')
          [(''title'', JUndefined), (''user_id'', JStr ''bob'')] 99 example_store
   = (Inr (Todo (row_object (example_row ''a1'' ''alice'' 0 10)) ''u''), example_store)"
proof -
  have h: "\<forall>p \<in> set [(''title'', JUndefined), (''user_id'', JStr ''bob'')].
             fst p \<in> set allowedFields \<longrightarrow> snd p = JUndefined"
    by (simp add: allowedFields_def)
  show ?thesis using update_without_defined_value [OF h] by simp
qed

section \<open>Ownership\<close>

text \<open>
  C1. For every caller the gate has let through and every store whose table respects
  its primary key: GET /api/todos/:id answers with a todo only when the row found
  belongs to the caller, and the todo it answers with carries the caller's identifier;
  PUT and DELETE on /api/todos/:id answer 200 or change the table only when the row
  found belongs to the caller, and they leave every row of every other owner as it was;
  GET /api/todos answers only with todos that carry the caller's identifier. Neither
  GET changes the table.
\<close>

theorem owner_isolation:
  assumes "primary_key (todos st)" and "i \<noteq> []"
  shows
    "((\<forall>j. data (fst (get_todo userId i u st)) = TodoData j \<longrightarrow> user_id j = JStr userId) \<and>
      (status (fst (get_todo userId i u st)) = 200 \<longrightarrow>
         (\<exists>r. select_by_id i (todos st) = Some r \<and> row_user_id r = SText userId)) \<and>
      todos (snd (get_todo userId i u st)) = todos st) \<and>
     (((status (fst (put_todo userId i b u n st)) = 200 \<or>
        todos (snd (put_todo userId i b u n st)) \<noteq> todos st) \<longrightarrow>
         (\<exists>r. select_by_id i (todos st) = Some r \<and> row_user_id r = SText userId)) \<and>
      filter (\<lambda>r. row_user_id r \<noteq> SText userId) (todos (snd (put_todo userId i b u n st)))
        = filter (\<lambda>r. row_user_id r \<noteq> SText userId) (todos st)) \<and>
     (((status (fst (delete_todo userId i u st)) = 200 \<or>
        todos (snd (delete_todo userId i u st)) \<noteq> todos st) \<longrightarrow>
         (\<exists>r. select_by_id i (todos st) = Some r \<and> row_user_id r = SText userId)) \<and>
      filter (\<lambda>r. row_user_id r \<noteq> SText userId) (todos (snd (delete_todo userId i u st)))
        = filter (\<lambda>r. row_user_id r \<noteq> SText userId) (todos st)) \<and>
     ((\<forall>js p. data (fst (get_todos userId q uuids st)) = TodosData js p \<longrightarrow>
         (\<forall>j \<in> set js. user_id j = JStr userId)) \<and>
      todos (snd (get_todos userId q uuids st)) = todos st)"
proof (intro conjI)
qed (use get_todo_isolation[of userId i u st] put_todo_found[of userId i b u n st]
      put_todo_frame[OF assms, of userId b u n] delete_todo_found[of userId i u st]
      delete_todo_frame[OF assms, of userId u] get_todos_isolation[of userId q uuids st] in \<open>blast+\<close>)

theorem owner_isolation_witness:
  "primary_key (todos example_store) \<and> ''b1'' \<noteq> [] \<and>
   fst (put_todo ''alice'' ''b1'' [(''completed'', JBool False)] ''u'' 99 example_store)
     = failure 403 ''ACCESS_DENIED'' \<and>
   filter (\<lambda>r. row_user_id r \<noteq> SText ''alice'')
      (todos (snd (put_todo ''alice'' ''b1'' [(''completed'', JBool False)] ''u'' 99 example_store)))
     = [example_row ''b1'' ''bob'' 1 20]"
proof -
  have h1: "primary_key (todos example_store)"
    by (simp add: primary_key_def example_store_def example_row_def)
  have h2: "''b1'' \<noteq> []" by simp
  have "fst (put_todo ''alice'' ''b1'' [(''completed'', JBool False)] ''u'' 99 example_store)
     = failure 403 ''ACCESS_DENIED''"
    by (simp add: put_todo_def findById_def select_by_id_def example_store_def example_row_def)
  then show ?thesis
    using h1 h2 owner_isolation [OF h1 h2, of "''alice''" "''u''" "[(''completed'', JBool False)]" 99]
    by (simp add: example_store_def example_row_def)
qed

section \<open>Existence before ownership\<close>

text \<open>
  C2. For GET, PUT and DELETE on /api/todos/:id, as the handler runs: when no row has
  the id the response is 404 TODO_NOT_FOUND; when the row found belongs to someone
  else the response is 403 ACCESS_DENIED; a response to a request for an existing
  todo is never 404, and the owner never gets 403.
\<close>

theorem existence_before_ownership:
  "(select_by_id i (todos st) = None \<longrightarrow>
      fst (get_todo userId i u st) = failure 404 ''TODO_NOT_FOUND'' \<and>
      fst (put_todo userId i b u n st) = failure 404 ''TODO_NOT_FOUND'' \<and>
      fst (delete_todo userId i u st) = failure 404 ''TODO_NOT_FOUND'') \<and>
   (\<forall>r. select_by_id i (todos st) = Some r \<and> row_user_id r \<noteq> SText userId \<longrightarrow>
      fst (get_todo userId i u st) = failure 403 ''ACCESS_DENIED'' \<and>
      fst (put_todo userId i b u n st) = failure 403 ''ACCESS_DENIED'' \<and>
      fst (delete_todo userId i u st) = failure 403 ''ACCESS_DENIED'') \<and>
   (\<forall>r. select_by_id i (todos st) = Some r \<longrightarrow>
      status (fst (get_todo userId i u st)) \<noteq> 404 \<and>
      status (fst (put_todo userId i b u n st)) \<noteq> 404 \<and>
      status (fst (delete_todo userId i u st)) \<noteq> 404) \<and>
   (\<forall>r. select_by_id i (todos st) = Some r \<and> row_user_id r = SText userId \<longrightarrow>
      status (fst (get_todo userId i u st)) \<noteq> 403 \<and>
      status (fst (put_todo userId i b u n st)) \<noteq> 403 \<and>
      status (fst (delete_todo userId i u st)) \<noteq> 403)"
  by (auto simp: get_todo_def put_todo_def delete_todo_def findById_def split: prod.splits sum.splits)

theorem existence_before_ownership_witness:
  "select_by_id ''b1'' (todos example_store) = Some (example_row ''b1'' ''bob'' 1 20) \<and>
   row_user_id (example_row ''b1'' ''bob'' 1 20) \<noteq> SText ''alice'' \<and>
   fst (get_todo ''alice'' ''b1'' ''u'' example_store) = failure 403 ''ACCESS_DENIED'' \<and>
   select_by_id ''zz'' (todos example_store) = None \<and>
   fst (delete_todo ''alice'' ''zz'' ''u'' example_store) = failure 404 ''TODO_NOT_FOUND''"
proof -
  have h1: "select_by_id ''b1'' (todos example_store) = Some (example_row ''b1'' ''bob'' 1 20)"
    by (simp add: example_store_def select_by_id_def example_row_def)
  have h2: "row_user_id (example_row ''b1'' ''bob'' 1 20) \<noteq> SText ''alice''"
    by (simp add: example_row_def)
  have h3: "select_by_id ''zz'' (todos example_store) = None"
    by (simp add: example_store_def select_by_id_def example_row_def)
  show ?thesis
    using h1 h2 h3
      existence_before_ownership [of "''b1''" example_store "''alice''" "''u''" "[]" 0]
      existence_before_ownership [of "''zz''" example_store "''alice''" "''u''" "[]" 0]
    by simp
qed

lemma authenticateToken_Inr:
  "authenticateToken v f h = Inr u \<longleftrightarrow>
     (\<exists>token userId. bearer h = Some token \<and> v token = Inr userId \<and> f userId = Some u)"
  by (auto simp: authenticateToken_def split: option.splits sum.splits)

lemma authenticateToken_Inl:
  "authenticateToken v f h = Inl resp \<Longrightarrow> resp = failure 401 ''UNAUTHENTICATED''"
  by (auto simp: authenticateToken_def split: option.splits sum.splits)

section \<open>The gate comes first\<close>

text \<open>
  C3. Every request to the todo router meets the gate before any route: a request the
  gate rejects is answered 401 UNAUTHENTICATED and leaves the store as it was, with no
  statement run; a request the gate accepts is handled by the routes with the identity
  the gate resolved; and whenever a request changes the store or runs a statement, its
  bearer token verified and named a live user.
\<close>

theorem gate_before_routes:
  "(\<forall>resp. authenticateToken (env_verify e) (env_findUser e) (authorization req) = Inl resp \<longrightarrow>
      router e req st = (Some (failure 401 ''UNAUTHENTICATED''), st)) \<and>
   (\<forall>u. authenticateToken (env_verify e) (env_findUser e) (authorization req) = Inr u \<longrightarrow>
      router e req st = routes e u req st) \<and>
   (snd (router e req st) \<noteq> st \<longrightarrow>
      (\<exists>token userId u. bearer (authorization req) = Some token \<and> env_verify e token = Inr userId \<and>
         env_findUser e userId = Some u \<and> router e req st = routes e u req st))"
proof -
  have a: "\<And>resp. authenticateToken (env_verify e) (env_findUser e) (authorization req) = Inl resp \<Longrightarrow>
      router e req st = (Some (failure 401 ''UNAUTHENTICATED''), st)"
    by (auto simp: router_def dest: authenticateToken_Inl)
  have b: "\<And>u. authenticateToken (env_verify e) (env_findUser e) (authorization req) = Inr u \<Longrightarrow>
      router e req st = routes e u req st"
    by (simp add: router_def)
  have c: "snd (router e req st) \<noteq> st \<Longrightarrow>
      (\<exists>token userId u. bearer (authorization req) = Some token \<and> env_verify e token = Inr userId \<and>
         env_findUser e userId = Some u \<and> router e req st = routes e u req st)"
  proof (cases "authenticateToken (env_verify e) (env_findUser e) (authorization req)")
    case (Inl resp)
    assume "snd (router e req st) \<noteq> st"
    then show ?thesis using a[OF Inl] by simp
  next
    case (Inr u)
    then show ?thesis using b[OF Inr] by (auto simp: authenticateToken_Inr)
  qed
  show ?thesis using a b c by blast
qed

theorem gate_before_routes_witness:
  "authenticateToken (env_verify example_env) (env_findUser example_env) (authorization example_request)
     = Inl (failure 401 ''UNAUTHENTICATED'') \<and>
   router example_env example_request example_store = (Some (failure 401 ''UNAUTHENTICATED''), example_store)"
proof -
  have h: "authenticateToken (env_verify example_env) (env_findUser example_env) (authorization example_request)
     = Inl (failure 401 ''UNAUTHENTICATED'')"
    by (simp add: authenticateToken_def bearer_def example_env_def example_request_def)
  show ?thesis using h gate_before_routes [of example_env example_request example_store] by simp
qed


section \<open>Doubles\<close>

lemma bits_le: "a < 2 ^ k \<Longrightarrow> bits a \<le> k"
proof (induction k arbitrary: a)
  case 0
  then show ?case by (simp add: bits.simps)
next
  case (Suc k)
  have "a div 2 < 2 ^ k" using Suc.prems by simp
  then have "bits (a div 2) \<le> k" by (rule Suc.IH)
  then show ?case by (subst bits.simps) simp
qed

lemma bits_gt: "a < 2 ^ bits a"
proof (induction a rule: bits.induct)
  case (1 n)
  show ?case
  proof (cases "n = 0")
    case True
    then show ?thesis by (simp add: bits.simps)
  next
    case False
    then have "n div 2 < 2 ^ bits (n div 2)" using 1 by simp
    then have "n < 2 * 2 ^ bits (n div 2)" by linarith
    then show ?thesis using False by (subst bits.simps) simp
  qed
qed

lemma bits_lower: "a \<noteq> 0 \<Longrightarrow> 2 ^ (bits a - 1) \<le> a"
proof (induction a rule: bits.induct)
  case (1 n)
  show ?case
  proof (cases "n div 2 = 0")
    case True
    then have "n = 1" using "1.prems" by (simp add: div_eq_0_iff)
    then show ?thesis by (simp add: bits.simps)
  next
    case False
    then have ih: "2 ^ (bits (n div 2) - 1) \<le> n div 2" using 1 by simp
    have pos: "bits (n div 2) \<noteq> 0" using False by (subst bits.simps) simp
    have "bits n = Suc (bits (n div 2))" using "1.prems" by (subst bits.simps) simp
    then have "2 ^ (bits n - 1) = 2 * 2 ^ (bits (n div 2) - 1)"
      using pos by (cases "bits (n div 2)") simp_all
    also have "\<dots> \<le> 2 * (n div 2)" using ih by simp
    also have "\<dots> \<le> n" by simp
    finally show ?thesis .
  qed
qed

lemma round_nat_small: "a < 2 ^ 53 \<Longrightarrow> round_nat a = a"
  using bits_le[of a 53] by (simp add: round_nat_def)

lemma round_nat_big:
  assumes "53 \<le> k" "2 ^ k \<le> a"
  shows "2 ^ k \<le> round_nat a"
proof (cases "bits a \<le> 53")
  case True
  then show ?thesis using assms by (simp add: round_nat_def)
next
  case False
  define e where "e = bits a - 53"
  have e: "1 \<le> e" "bits a - 1 = 52 + e" using False by (simp_all add: e_def)
  have le: "(a div 2 ^ e) * 2 ^ e \<le> round_nat a"
    using False by (simp add: round_nat_def Let_def e_def)
  show ?thesis
  proof (cases "e \<le> k")
    case True
    have "(2::nat) ^ (k - e) * 2 ^ e = 2 ^ k" using True by (simp add: power_add [symmetric])
    then have "(2::nat) ^ (k - e) * 2 ^ e \<le> a" using assms(2) by simp
    then have "(2::nat) ^ (k - e) \<le> a div 2 ^ e" by (simp add: less_eq_div_iff_mult_less_eq)
    then have "(2::nat) ^ (k - e) * 2 ^ e \<le> (a div 2 ^ e) * 2 ^ e" by (intro mult_le_mono1)
    then show ?thesis using le \<open>(2::nat) ^ (k - e) * 2 ^ e = 2 ^ k\<close> by linarith
  next
    case False
    have "0 < (2::nat) ^ k" by simp
    then have "a \<noteq> 0" using assms(2) by linarith
    then have "(2::nat) ^ (52 + e) \<le> a" using bits_lower[of a] e(2) by simp
    then have "(2::nat) ^ 52 * 2 ^ e \<le> a" by (simp add: power_add)
    then have "(2::nat) ^ 52 \<le> a div 2 ^ e" by (simp add: less_eq_div_iff_mult_less_eq)
    then have "1 \<le> a div 2 ^ e" by simp
    then have "1 * 2 ^ e \<le> (a div 2 ^ e) * 2 ^ e" by (intro mult_le_mono1)
    then have "(2::nat) ^ e \<le> (a div 2 ^ e) * 2 ^ e" by (simp only: mult_1)
    moreover have "(2::nat) ^ k \<le> 2 ^ e" using False by (intro power_increasing) simp_all
    ultimately show ?thesis using le by linarith
  qed
qed

lemma to_double_small:
  assumes "\<bar>v\<bar> < 2 ^ 53"
  shows "to_double v = v"
proof (cases "v < 0")
  case True
  have "nat (- v) < 2 ^ 53" using assms True by (simp add: nat_less_iff)
  then have "round_nat (nat (- v)) = nat (- v)" by (rule round_nat_small)
  then show ?thesis using True by (simp add: to_double_def)
next
  case False
  have "nat v < 2 ^ 53" using assms False by (simp add: nat_less_iff)
  then have "round_nat (nat v) = nat v" by (rule round_nat_small)
  then show ?thesis using False by (simp add: to_double_def)
qed

lemma to_double_big:
  assumes "53 \<le> k" "2 ^ k \<le> v"
  shows "2 ^ k \<le> to_double v"
proof -
  have "(2::nat) ^ k \<le> nat v" using assms(2) by (simp add: le_nat_iff)
  then have "(2::nat) ^ k \<le> round_nat (nat v)" by (rule round_nat_big[OF assms(1)])
  then have "int (2 ^ k) \<le> int (round_nat (nat v))" by (simp only: of_nat_le_iff)
  then have "(2::int) ^ k \<le> int (round_nat (nat v))" by simp
  moreover have "\<not> v < 0" using assms(2) by (smt (verit) zero_less_power)
  ultimately show ?thesis unfolding to_double_def by simp
qed

lemma to_double_big_neg:
  assumes "v \<le> - (2 ^ 53)"
  shows "to_double v \<le> - (2 ^ 53)"
proof -
  have "(2::nat) ^ 53 \<le> nat (- v)" using assms by (simp add: le_nat_iff)
  then have "(2::nat) ^ 53 \<le> round_nat (nat (- v))" by (rule round_nat_big[OF order_refl])
  then have "int (2 ^ 53) \<le> int (round_nat (nat (- v)))" by (simp only: of_nat_le_iff)
  then have "(2::int) ^ 53 \<le> int (round_nat (nat (- v)))" by simp
  moreover have "v < 0" using assms by simp
  ultimately show ?thesis by (simp add: to_double_def)
qed

lemma to_double_less:
  assumes "- (2 ^ 53) < t" "t \<le> 2 ^ 53"
  shows "to_double v < t \<longleftrightarrow> v < t"
proof -
  consider "\<bar>v\<bar> < 2 ^ 53" | "2 ^ 53 \<le> v" | "v \<le> - (2 ^ 53)" by linarith
  then show ?thesis
  proof cases
    case 1
    then show ?thesis by (simp add: to_double_small)
  next
    case 2
    then show ?thesis using to_double_big[OF order_refl 2] assms by linarith
  next
    case 3
    then show ?thesis using to_double_big_neg[OF 3] assms by linarith
  qed
qed

lemma to_double_greater:
  assumes "- (2 ^ 53) \<le> t" "t < 2 ^ 53"
  shows "t < to_double v \<longleftrightarrow> t < v"
proof -
  consider "\<bar>v\<bar> < 2 ^ 53" | "2 ^ 53 \<le> v" | "v \<le> - (2 ^ 53)" by linarith
  then show ?thesis
  proof cases
    case 1
    then show ?thesis by (simp add: to_double_small)
  next
    case 2
    then show ?thesis using to_double_big[OF order_refl 2] assms by linarith
  next
    case 3
    then show ?thesis using to_double_big_neg[OF 3] assms by linarith
  qed
qed

section \<open>Counting and listing\<close>

lemma findByUserId_fits:
  "fits_int64 l \<Longrightarrow> fits_int64 off \<Longrightarrow>
     fst (findByUserId userId \<lparr>opt_status = s, opt_limit = Some l, opt_offset = Some off\<rparr> uuids st)
       = Inr (map (\<lambda>(i, r). Todo (row_object r) (uuids i))
               (enumerate 0 (select_by_user userId
                  \<lparr>opt_status = s, opt_limit = Some l, opt_offset = Some off\<rparr> (todos st))))"
  by (simp add: findByUserId_def)

lemma findByUserId_unfit:
  "\<not> fits_int64 off \<Longrightarrow>
     findByUserId userId \<lparr>opt_status = s, opt_limit = Some l, opt_offset = Some off\<rparr> uuids st
       = (Inl SQLITE_MISMATCH, run SELECT_BY_USER st)"
  by (simp add: findByUserId_def)

lemma fits_int64_simps [simp]: "fits_int64 (- 1)" "fits_int64 0"
  by (simp_all add: fits_int64_def)

lemma limit_offset_all [simp]: "limit_offset (- 1) 0 xs = xs"
  by (simp add: limit_offset_def)

lemma length_limit_offset:
  "0 \<le> l \<Longrightarrow> 0 \<le> off \<Longrightarrow> int (length (limit_offset l off xs)) = max 0 (min l (int (length xs) - off))"
  by (auto simp: limit_offset_def min_def max_def)

lemma length_order_by [simp]: "length (order_by_created_at_desc rows) = length rows"
  by (simp add: order_by_created_at_desc_def)

lemma count_is_length:
  "fst (getCountByUserId userId s st)
     = int (length (select_by_user userId \<lparr>opt_status = s, opt_limit = Some (- 1), opt_offset = Some 0\<rparr> (todos st)))"
  by (simp add: getCountByUserId_def select_by_user_def)

lemma count_nonneg: "0 \<le> fst (getCountByUserId userId s st)"
  by (simp add: getCountByUserId_def)

text \<open>
  C8. For every owner and every status filter, \<open>getCountByUserId\<close> returns the length
  of what \<open>findByUserId\<close> returns for the same owner and filter without pagination:
  with no limit (\<open>LIMIT -1\<close>) and offset 0, and as well with any limit that is at least
  the count and that SQLite takes (below \<open>2^63\<close>). In both cases the listing succeeds.
\<close>

theorem count_matches_listing:
  "(\<exists>ts. fst (findByUserId userId
               \<lparr>opt_status = s, opt_limit = Some (- 1), opt_offset = Some 0\<rparr> uuids st) = Inr ts \<and>
         fst (getCountByUserId userId s st) = int (length ts)) \<and>
   (fst (getCountByUserId userId s st) + int k < 2 ^ 63 \<longrightarrow>
      (\<exists>ts. fst (findByUserId userId
                 \<lparr>opt_status = s, opt_limit = Some (fst (getCountByUserId userId s st) + int k),
                  opt_offset = Some 0\<rparr> uuids st) = Inr ts \<and>
            fst (getCountByUserId userId s st) = int (length ts)))"
proof (intro conjI impI)
  show "\<exists>ts. fst (findByUserId userId
               \<lparr>opt_status = s, opt_limit = Some (- 1), opt_offset = Some 0\<rparr> uuids st) = Inr ts \<and>
         fst (getCountByUserId userId s st) = int (length ts)"
    by (simp add: findByUserId_fits count_is_length)
next
  let ?c = "fst (getCountByUserId userId s st)"
  assume b: "?c + int k < 2 ^ 63"
  have f: "fits_int64 (?c + int k)"
    using b count_nonneg[of userId s st] by (simp add: fits_int64_def)
  have "int (length (select_by_user userId
          \<lparr>opt_status = s, opt_limit = Some (?c + int k), opt_offset = Some 0\<rparr> (todos st))) = ?c"
    by (simp add: select_by_user_def length_limit_offset getCountByUserId_def)
  then show "\<exists>ts. fst (findByUserId userId
                 \<lparr>opt_status = s, opt_limit = Some (?c + int k), opt_offset = Some 0\<rparr> uuids st) = Inr ts \<and>
            ?c = int (length ts)"
    by (simp add: findByUserId_fits[OF f])
qed

lemma count_example: "fst (getCountByUserId ''alice'' None example_store) = 3"
  by (simp add: getCountByUserId_def example_store_def example_row_def where_user_def)

theorem count_matches_listing_witness:
  "fst (getCountByUserId ''alice'' None example_store) + int 2 < 2 ^ 63 \<and>
   (\<exists>ts. fst (findByUserId ''alice'' \<lparr>opt_status = None, opt_limit = Some 5, opt_offset = Some 0\<rparr>
                 (\<lambda>k. ''u'') example_store) = Inr ts \<and> length ts = 3)"
proof -
  have h: "fst (getCountByUserId ''alice'' None example_store) + int 2 < 2 ^ 63"
    by (simp add: count_example)
  show ?thesis
    using h count_matches_listing [of "''alice''" None "\<lambda>k. ''u''" example_store 2]
    by (simp add: count_example)
qed

section \<open>Query validation and pagination\<close>

lemma validateTodoQuery_Inr:
  assumes "validateTodoQuery rq = Inr q"
  shows "q_status q = rq_status rq \<and> 1 \<le> q_limit q \<and> q_limit q \<le> 100 \<and> 0 \<le> q_offset q \<and>
         (given (rq_limit rq) \<longrightarrow> parseInt (the (rq_limit rq)) = Some (q_limit q)) \<and>
         (\<not> given (rq_limit rq) \<longrightarrow> q_limit q = 50) \<and>
         (given (rq_offset rq) \<longrightarrow> parseInt (the (rq_offset rq)) = Some (q_offset q)) \<and>
         (\<not> given (rq_offset rq) \<longrightarrow> q_offset q = 0) \<and>
         (given (rq_status rq) \<longrightarrow> the (rq_status rq) \<in> {''all'', ''completed'', ''pending''})"
  using assms by (auto simp: validateTodoQuery_def split: if_splits option.splits)

lemma hasMore_calculatePagination:
  "hasMore (calculatePagination t l off) = (to_double (off + l) < t)"
  by (simp add: calculatePagination_def Let_def)

lemma get_todos_ok:
  assumes "fits_int64 (q_limit q)" "fits_int64 (q_offset q)"
  shows "get_todos userId q uuids st =
     (success 200
        (TodosData
           (map toJSON (map (\<lambda>(i, r). Todo (row_object r) (uuids i))
               (enumerate 0 (select_by_user userId
                  \<lparr>opt_status = q_status q, opt_limit = Some (q_limit q), opt_offset = Some (q_offset q)\<rparr>
                  (todos st)))))
           \<lparr>p_total = fst (getCountByUserId userId (q_status q) st), p_limit = q_limit q,
            p_offset = q_offset q,
            p_hasMore = (to_double (q_offset q + q_limit q) < fst (getCountByUserId userId (q_status q) st))\<rparr>),
      run SELECT_COUNT (run SELECT_BY_USER st))"
  using assms by (simp add: get_todos_def findByUserId_def getCountByUserId_def)

lemma get_todos_fail:
  assumes "\<not> fits_int64 (q_offset q)"
  shows "get_todos userId q uuids st = (failure 500 ''GET_TODOS_ERROR'', run SELECT_BY_USER st)"
  using assms by (simp add: get_todos_def findByUserId_def)

lemma length_page:
  assumes "0 \<le> l" "0 \<le> off"
  shows "int (length (select_by_user userId \<lparr>opt_status = s, opt_limit = Some l, opt_offset = Some off\<rparr> (todos st)))
       = max 0 (min l (fst (getCountByUserId userId s st) - off))"
  using assms by (simp add: select_by_user_def length_limit_offset getCountByUserId_def)


text \<open>
  C5. For every query the validation accepts: GET /api/todos answers 200 with a
  pagination when the offset is below \<open>2^63\<close>, and 500 otherwise (SQLite refuses the
  offset). In every response that has a pagination, \<open>total\<close> is the count for the same
  owner and status filter (the length of the listing without limit and offset),
  \<open>limit\<close> and \<open>offset\<close> are those of the query, and \<open>hasMore\<close> is
  \<open>offset + limit < total\<close> (the total being a count, hence at most \<open>2^53\<close>), as
  \<open>calculatePagination\<close> computes it too. The response carries
  \<open>min limit (total - offset)\<close> todos (none if that is negative): with total 10 and
  limit 3, one todo and \<open>hasMore = false\<close> at offset 9, three todos and
  \<open>hasMore = true\<close> at offset 6.
\<close>

theorem pagination_contract:
  assumes "validateTodoQuery rq = Inr q"
  shows
    "(q_offset q < 2 ^ 63 \<longrightarrow> (\<exists>js p. fst (get_todos userId q uuids st) = success 200 (TodosData js p))) \<and>
     (2 ^ 63 \<le> q_offset q \<longrightarrow> fst (get_todos userId q uuids st) = failure 500 ''GET_TODOS_ERROR'') \<and>
     (\<forall>js p. data (fst (get_todos userId q uuids st)) = TodosData js p \<longrightarrow>
        p_total p = fst (getCountByUserId userId (q_status q) st) \<and>
        (\<exists>ts. fst (findByUserId userId
                   \<lparr>opt_status = q_status q, opt_limit = Some (- 1), opt_offset = Some 0\<rparr> uuids st) = Inr ts \<and>
              p_total p = int (length ts)) \<and>
        p_limit p = q_limit q \<and> p_offset p = q_offset q \<and>
        (p_total p \<le> 2 ^ 53 \<longrightarrow>
           p_hasMore p = (p_offset p + p_limit p < p_total p) \<and>
           p_hasMore p = hasMore (calculatePagination (p_total p) (p_limit p) (p_offset p))) \<and>
        int (length js) = max 0 (min (p_limit p) (p_total p - p_offset p)) \<and>
        (p_total p = 10 \<and> p_limit p = 3 \<and> p_offset p = 9 \<longrightarrow> length js = 1 \<and> \<not> p_hasMore p) \<and>
        (p_total p = 10 \<and> p_limit p = 3 \<and> p_offset p = 6 \<longrightarrow> length js = 3 \<and> p_hasMore p))"
proof -
  let ?total = "fst (getCountByUserId userId (q_status q) st)"
  have v: "1 \<le> q_limit q" "q_limit q \<le> 100" "0 \<le> q_offset q"
    using validateTodoQuery_Inr[OF assms] by auto
  have fl: "fits_int64 (q_limit q)" using v by (simp add: fits_int64_def)
  have a: "q_offset q < 2 ^ 63 \<longrightarrow> (\<exists>js p. fst (get_todos userId q uuids st) = success 200 (TodosData js p))"
  proof
    assume "q_offset q < 2 ^ 63"
    then have fo: "fits_int64 (q_offset q)" using v by (simp add: fits_int64_def)
    show "\<exists>js p. fst (get_todos userId q uuids st) = success 200 (TodosData js p)"
      unfolding get_todos_ok[OF fl fo] fst_conv by (intro exI) (rule refl)
  qed
  have b: "2 ^ 63 \<le> q_offset q \<longrightarrow> fst (get_todos userId q uuids st) = failure 500 ''GET_TODOS_ERROR''"
    by (simp add: get_todos_fail fits_int64_def)
  have c: "\<forall>js p. data (fst (get_todos userId q uuids st)) = TodosData js p \<longrightarrow>
        p_total p = ?total \<and>
        (\<exists>ts. fst (findByUserId userId
                   \<lparr>opt_status = q_status q, opt_limit = Some (- 1), opt_offset = Some 0\<rparr> uuids st) = Inr ts \<and>
              p_total p = int (length ts)) \<and>
        p_limit p = q_limit q \<and> p_offset p = q_offset q \<and>
        (p_total p \<le> 2 ^ 53 \<longrightarrow>
           p_hasMore p = (p_offset p + p_limit p < p_total p) \<and>
           p_hasMore p = hasMore (calculatePagination (p_total p) (p_limit p) (p_offset p))) \<and>
        int (length js) = max 0 (min (p_limit p) (p_total p - p_offset p)) \<and>
        (p_total p = 10 \<and> p_limit p = 3 \<and> p_offset p = 9 \<longrightarrow> length js = 1 \<and> \<not> p_hasMore p) \<and>
        (p_total p = 10 \<and> p_limit p = 3 \<and> p_offset p = 6 \<longrightarrow> length js = 3 \<and> p_hasMore p)"
  proof (intro allI impI)
    fix js p
    assume d: "data (fst (get_todos userId q uuids st)) = TodosData js p"
    have fo: "fits_int64 (q_offset q)"
    proof (rule ccontr)
      assume "\<not> fits_int64 (q_offset q)"
      then show False using d by (simp add: get_todos_fail)
    qed
    let ?rows = "select_by_user userId
                  \<lparr>opt_status = q_status q, opt_limit = Some (q_limit q), opt_offset = Some (q_offset q)\<rparr>
                  (todos st)"
    have js: "js = map toJSON (map (\<lambda>(i, r). Todo (row_object r) (uuids i)) (enumerate 0 ?rows))"
      and p: "p = \<lparr>p_total = ?total, p_limit = q_limit q, p_offset = q_offset q,
                   p_hasMore = (to_double (q_offset q + q_limit q) < ?total)\<rparr>"
      using d by (simp_all add: get_todos_ok[OF fl fo])
    have len: "int (length js) = max 0 (min (q_limit q) (?total - q_offset q))"
      using length_page[of "q_limit q" "q_offset q" userId "q_status q" st] v by (simp add: js)
    have hm: "?total \<le> 2 ^ 53 \<Longrightarrow> p_hasMore p = (q_offset q + q_limit q < ?total)"
      using to_double_less[of ?total "q_offset q + q_limit q"] count_nonneg[of userId "q_status q" st]
      by (simp add: p)
    have ex: "?total = 10 \<Longrightarrow> p_hasMore p = (q_offset q + q_limit q < 10)"
      using hm by simp
    have t0: "p_total p = ?total" "p_limit p = q_limit q" "p_offset p = q_offset q"
      by (simp_all add: p)
    have t1: "\<exists>ts. fst (findByUserId userId
                   \<lparr>opt_status = q_status q, opt_limit = Some (- 1), opt_offset = Some 0\<rparr> uuids st) = Inr ts \<and>
              p_total p = int (length ts)"
      by (simp add: findByUserId_fits count_is_length p)
    have t2: "p_total p \<le> 2 ^ 53 \<longrightarrow>
           p_hasMore p = (p_offset p + p_limit p < p_total p) \<and>
           p_hasMore p = hasMore (calculatePagination (p_total p) (p_limit p) (p_offset p))"
      using hm by (simp add: p hasMore_calculatePagination)
    have t3: "p_total p = 10 \<and> p_limit p = 3 \<and> p_offset p = 9 \<longrightarrow> length js = 1 \<and> \<not> p_hasMore p"
      using len ex by (auto simp: p)
    have t4: "p_total p = 10 \<and> p_limit p = 3 \<and> p_offset p = 6 \<longrightarrow> length js = 3 \<and> p_hasMore p"
      using len ex by (auto simp: p)
    have t5: "int (length js) = max 0 (min (p_limit p) (p_total p - p_offset p))"
      using len by (simp add: p)
    show "p_total p = ?total \<and>
        (\<exists>ts. fst (findByUserId userId
                   \<lparr>opt_status = q_status q, opt_limit = Some (- 1), opt_offset = Some 0\<rparr> uuids st) = Inr ts \<and>
              p_total p = int (length ts)) \<and>
        p_limit p = q_limit q \<and> p_offset p = q_offset q \<and>
        (p_total p \<le> 2 ^ 53 \<longrightarrow>
           p_hasMore p = (p_offset p + p_limit p < p_total p) \<and>
           p_hasMore p = hasMore (calculatePagination (p_total p) (p_limit p) (p_offset p))) \<and>
        int (length js) = max 0 (min (p_limit p) (p_total p - p_offset p)) \<and>
        (p_total p = 10 \<and> p_limit p = 3 \<and> p_offset p = 9 \<longrightarrow> length js = 1 \<and> \<not> p_hasMore p) \<and>
        (p_total p = 10 \<and> p_limit p = 3 \<and> p_offset p = 6 \<longrightarrow> length js = 3 \<and> p_hasMore p)"
      by (intro conjI t0 t1 t2 t3 t4 t5)
  qed
  show ?thesis using a b c by blast
qed

lemma trim_start_ascii:
  assumes "\<not> space1 a" "(of_char a :: nat) < 128"
  shows "trim_start (a # s) = a # s"
proof -
  have n2: "\<And>b. \<not> space2 a b" using assms(2) by (simp add: space2_def)
  have n3: "\<And>b c. \<not> space3 a b c" using assms(2) by (auto simp: space3_def Let_def)
  show ?thesis
  proof (cases s)
    case Nil
    then show ?thesis using assms(1) by simp
  next
    case (Cons b r)
    then show ?thesis using assms(1) n2 n3 by (cases r) simp_all
  qed
qed

lemma is_digit_facts:
  assumes "is_digit c"
  shows "\<not> space1 c" "(of_char c :: nat) < 128" "c \<noteq> CHR ''-''" "c \<noteq> CHR ''+''"
    "c \<noteq> CHR ''x''" "c \<noteq> CHR ''X''" "digit_of c = digit_value c" "digit_of c < 10" "digit_of c < 16"
  using assms by (auto simp: is_digit_def space1_def digit_of_def digit_value_def Let_def)

lemma strip_prefix_digits:
  assumes "list_all is_digit ds"
  shows "strip_prefix ds = (10, ds)"
proof (cases ds)
  case Nil
  then show ?thesis by (simp add: strip_prefix_def)
next
  case (Cons c r)
  show ?thesis
  proof (cases r)
    case Nil
    then show ?thesis using Cons by (simp add: strip_prefix_def)
  next
    case (Cons d r')
    have "is_digit d" using assms \<open>ds = c # r\<close> Cons by simp
    then show ?thesis using \<open>ds = c # r\<close> Cons is_digit_facts(5,6)[of d] by (simp add: strip_prefix_def)
  qed
qed

lemma takeWhile_digits:
  "list_all is_digit ds \<Longrightarrow> takeWhile (\<lambda>c. digit_of c < 10) ds = ds"
  by (induction ds) (auto simp: is_digit_def digit_of_def Let_def)

lemma foldl_digits:
  "list_all is_digit ds \<Longrightarrow>
     foldl (\<lambda>a c. a * 10 + digit_of c) a ds = foldl (\<lambda>a c. a * 10 + digit_value c) a ds"
  by (induction ds arbitrary: a) (simp_all add: is_digit_facts(7))

lemma parseInt_digits:
  assumes "ds \<noteq> []" "list_all is_digit ds"
  shows "parseInt ds = Some (to_double (int (digits_value ds)))"
proof -
  obtain c r where ds: "ds = c # r" using assms(1) by (cases ds) auto
  have c: "is_digit c" using assms(2) ds by simp
  have t: "trim_start ds = ds"
    unfolding ds using is_digit_facts(1,2)[OF c] by (rule trim_start_ascii)
  have s: "strip_sign ds = (1, ds)"
    using is_digit_facts(3,4)[OF c] by (simp add: strip_sign_def ds)
  show ?thesis
    using assms(1)
    by (simp add: parseInt_def t s strip_prefix_digits[OF assms(2)] takeWhile_digits[OF assms(2)]
          foldl_digits[OF assms(2)] digits_value_def)
qed

lemma parseInt_minus_digits:
  assumes "ds \<noteq> []" "list_all is_digit ds"
  shows "parseInt (CHR ''-'' # ds) = Some (to_double (- int (digits_value ds)))"
proof -
  have t: "trim_start (CHR ''-'' # ds) = CHR ''-'' # ds"
    by (rule trim_start_ascii) (simp_all add: space1_def)
  have s: "strip_sign (CHR ''-'' # ds) = (- 1, ds)"
    by (simp add: strip_sign_def)
  show ?thesis
    using assms(1)
    by (simp add: parseInt_def t s strip_prefix_digits[OF assms(2)] takeWhile_digits[OF assms(2)]
          foldl_digits[OF assms(2)] digits_value_def)
qed

lemma parseInt_decimal:
  assumes "decimal s"
  shows "parseInt s = Some (to_double (decimal_value s))"
proof (cases "hd s = CHR ''-''")
  case True
  then obtain ds where s: "s = CHR ''-'' # ds" using assms by (cases s) (auto simp: decimal_def)
  then show ?thesis using assms parseInt_minus_digits[of ds] by (simp add: decimal_def decimal_value_def)
next
  case False
  then show ?thesis using assms parseInt_digits[of s] by (simp add: decimal_def decimal_value_def)
qed

lemma parseInt_3: "parseInt ''3'' = Some 3"
  using parseInt_digits[of "''3''"]
  by (simp add: is_digit_def digits_value_def digit_value_def to_double_small)

lemma parseInt_9: "parseInt ''9'' = Some 9"
  using parseInt_digits[of "''9''"]
  by (simp add: is_digit_def digits_value_def digit_value_def to_double_small)

lemma parseInt_6: "parseInt ''6'' = Some 6"
  using parseInt_digits[of "''6''"]
  by (simp add: is_digit_def digits_value_def digit_value_def to_double_small)

lemma count_ten: "fst (getCountByUserId ''alice'' None ten_store) = 10"
  by (simp add: getCountByUserId_def ten_store_def example_row_def where_user_def)

theorem pagination_contract_witness:
  "validateTodoQuery \<lparr>rq_status = None, rq_limit = Some ''3'', rq_offset = Some ''9''\<rparr>
     = Inr \<lparr>q_status = None, q_limit = 3, q_offset = 9\<rparr> \<and>
   fst (getCountByUserId ''alice'' None ten_store) = 10 \<and>
   (\<exists>js p. fst (get_todos ''alice'' \<lparr>q_status = None, q_limit = 3, q_offset = 9\<rparr> (\<lambda>k. ''u'') ten_store)
              = success 200 (TodosData js p) \<and> length js = 1 \<and> \<not> p_hasMore p) \<and>
   validateTodoQuery \<lparr>rq_status = None, rq_limit = Some ''3'', rq_offset = Some ''6''\<rparr>
     = Inr \<lparr>q_status = None, q_limit = 3, q_offset = 6\<rparr> \<and>
   (\<exists>js p. fst (get_todos ''alice'' \<lparr>q_status = None, q_limit = 3, q_offset = 6\<rparr> (\<lambda>k. ''u'') ten_store)
              = success 200 (TodosData js p) \<and> length js = 3 \<and> p_hasMore p)"
proof -
  have h: "validateTodoQuery \<lparr>rq_status = None, rq_limit = Some ''3'', rq_offset = Some ''9''\<rparr>
     = Inr \<lparr>q_status = None, q_limit = 3, q_offset = 9\<rparr>"
    by (simp add: validateTodoQuery_def given_def parseInt_3 parseInt_9)
  have h': "validateTodoQuery \<lparr>rq_status = None, rq_limit = Some ''3'', rq_offset = Some ''6''\<rparr>
     = Inr \<lparr>q_status = None, q_limit = 3, q_offset = 6\<rparr>"
    by (simp add: validateTodoQuery_def given_def parseInt_3 parseInt_6)
  have a: "\<exists>js p. fst (get_todos ''alice'' \<lparr>q_status = None, q_limit = 3, q_offset = 9\<rparr> (\<lambda>k. ''u'') ten_store)
              = success 200 (TodosData js p) \<and> length js = 1 \<and> \<not> p_hasMore p"
    using count_ten pagination_contract [OF h, of "''alice''" "\<lambda>k. ''u''" ten_store] by auto
  have b: "\<exists>js p. fst (get_todos ''alice'' \<lparr>q_status = None, q_limit = 3, q_offset = 6\<rparr> (\<lambda>k. ''u'') ten_store)
              = success 200 (TodosData js p) \<and> length js = 3 \<and> p_hasMore p"
    using count_ten pagination_contract [OF h', of "''alice''" "\<lambda>k. ''u''" ten_store] by auto
  show ?thesis using h h' count_ten a b by blast
qed

lemma validateTodoQuery_Inl:
  "validateTodoQuery rq = Inl resp \<Longrightarrow> status resp = 400"
  by (auto simp: validateTodoQuery_def split: if_splits)

lemma limit_rejected:
  assumes "given (rq_limit rq)" "parseInt (the (rq_limit rq)) = Some n" "n < 1 \<or> 100 < n"
  shows "validateTodoQuery rq = Inl (failure 400 ''INVALID_STATUS'') \<or>
         validateTodoQuery rq = Inl (failure 400 ''INVALID_LIMIT'')"
  using assms by (auto simp: validateTodoQuery_def)

lemma limit_unreadable:
  assumes "given (rq_limit rq)" "parseInt (the (rq_limit rq)) = None"
  shows "validateTodoQuery rq = Inl (failure 400 ''INVALID_STATUS'') \<or>
         validateTodoQuery rq = Inl (failure 400 ''INVALID_LIMIT'')"
  using assms by (auto simp: validateTodoQuery_def)

lemma offset_rejected:
  assumes "given (rq_offset rq)" "parseInt (the (rq_offset rq)) = Some n" "n < 0"
  shows "\<exists>c. validateTodoQuery rq = Inl (failure 400 c)"
  using assms by (auto simp: validateTodoQuery_def)

lemma offset_unreadable:
  assumes "given (rq_offset rq)" "parseInt (the (rq_offset rq)) = None"
  shows "\<exists>c. validateTodoQuery rq = Inl (failure 400 c)"
  using assms by (auto simp: validateTodoQuery_def)

lemma decimal_given: "decimal s \<Longrightarrow> given (Some s)"
  by (simp add: decimal_def given_def)

lemma to_double_limit:
  "(to_double v < 1 \<or> 100 < to_double v) \<longleftrightarrow> (v < 1 \<or> 100 < v)"
  using to_double_less[of 1 v] to_double_greater[of 100 v] by simp

lemma to_double_negative: "to_double v < 0 \<longleftrightarrow> v < 0"
  using to_double_less[of 0 v] by simp

lemma accepted:
  assumes s: "\<not> given (rq_status rq) \<or> the (rq_status rq) \<in> {''all'', ''completed'', ''pending''}"
    and l: "\<not> given (rq_limit rq) \<or>
            (decimal (the (rq_limit rq)) \<and> 1 \<le> decimal_value (the (rq_limit rq)) \<and>
             decimal_value (the (rq_limit rq)) \<le> 100)"
    and off: "\<not> given (rq_offset rq) \<or>
            (decimal (the (rq_offset rq)) \<and> 0 \<le> decimal_value (the (rq_offset rq)))"
  shows "validateTodoQuery rq =
           Inr \<lparr>q_status = rq_status rq,
                q_limit = (if given (rq_limit rq) then decimal_value (the (rq_limit rq)) else 50),
                q_offset = (if given (rq_offset rq) then to_double (decimal_value (the (rq_offset rq))) else 0)\<rparr>"
proof -
  have l': "given (rq_limit rq) \<Longrightarrow> parseInt (the (rq_limit rq)) = Some (decimal_value (the (rq_limit rq)))"
    using l parseInt_decimal[of "the (rq_limit rq)"] to_double_small[of "decimal_value (the (rq_limit rq))"]
    by auto
  have o': "given (rq_offset rq) \<Longrightarrow>
              parseInt (the (rq_offset rq)) = Some (to_double (decimal_value (the (rq_offset rq)))) \<and>
              \<not> to_double (decimal_value (the (rq_offset rq))) < 0"
    using off parseInt_decimal[of "the (rq_offset rq)"] by (auto simp: to_double_negative)
  show ?thesis
    using s l l' o' by (auto simp: validateTodoQuery_def)
qed

text \<open>
  C9 (amended). For every GET /api/todos request: a status that is not empty and not
  one of all, completed, pending is rejected with 400 INVALID_STATUS; a limit that is
  a decimal integer outside 1..100, an offset that is a negative decimal integer, and
  a limit or an offset that is not empty and in which no integer can be read at all,
  are rejected with 400; a rejection is the whole response and leaves the store as it
  was, with no statement run. A query whose status is missing, empty or one of the
  three, whose limit is missing, empty or a decimal integer in 1..100 and whose offset
  is missing, empty or a decimal integer that is not negative is accepted, with the
  limit given, or 50 when it is missing or empty, and the offset given (as a double),
  or 0 when it is missing or empty. An accepted query always has a limit in 1..100
  and an offset that is not negative.
\<close>

theorem query_validation:
  "(given (rq_status rq) \<and> the (rq_status rq) \<notin> {''all'', ''completed'', ''pending''} \<longrightarrow>
      validateTodoQuery rq = Inl (failure 400 ''INVALID_STATUS'')) \<and>
   (\<forall>s. rq_limit rq = Some s \<and>
        (decimal s \<and> (decimal_value s < 1 \<or> 100 < decimal_value s) \<or> s \<noteq> [] \<and> parseInt s = None) \<longrightarrow>
      validateTodoQuery rq = Inl (failure 400 ''INVALID_STATUS'') \<or>
      validateTodoQuery rq = Inl (failure 400 ''INVALID_LIMIT'')) \<and>
   (\<forall>s. rq_offset rq = Some s \<and>
        (decimal s \<and> decimal_value s < 0 \<or> s \<noteq> [] \<and> parseInt s = None) \<longrightarrow>
      (\<exists>c. validateTodoQuery rq = Inl (failure 400 c))) \<and>
   (\<forall>resp. validateTodoQuery rq = Inl resp \<longrightarrow>
      status resp = 400 \<and>
      (req_method req = GET \<and> req_path req = [] \<and> req_query req = rq \<longrightarrow>
         routes e u req st = (Some resp, st))) \<and>
   ((\<not> given (rq_status rq) \<or> the (rq_status rq) \<in> {''all'', ''completed'', ''pending''}) \<and>
    (\<not> given (rq_limit rq) \<or>
       decimal (the (rq_limit rq)) \<and> 1 \<le> decimal_value (the (rq_limit rq)) \<and>
       decimal_value (the (rq_limit rq)) \<le> 100) \<and>
    (\<not> given (rq_offset rq) \<or>
       decimal (the (rq_offset rq)) \<and> 0 \<le> decimal_value (the (rq_offset rq))) \<longrightarrow>
      validateTodoQuery rq =
        Inr \<lparr>q_status = rq_status rq,
             q_limit = (if given (rq_limit rq) then decimal_value (the (rq_limit rq)) else 50),
             q_offset = (if given (rq_offset rq) then to_double (decimal_value (the (rq_offset rq))) else 0)\<rparr>) \<and>
   (\<forall>q. validateTodoQuery rq = Inr q \<longrightarrow>
      q_status q = rq_status rq \<and> 1 \<le> q_limit q \<and> q_limit q \<le> 100 \<and> 0 \<le> q_offset q \<and>
      (\<not> given (rq_limit rq) \<longrightarrow> q_limit q = 50) \<and>
      (\<not> given (rq_offset rq) \<longrightarrow> q_offset q = 0))"
proof (intro conjI)
  show "given (rq_status rq) \<and> the (rq_status rq) \<notin> {''all'', ''completed'', ''pending''} \<longrightarrow>
      validateTodoQuery rq = Inl (failure 400 ''INVALID_STATUS'')"
    by (simp add: validateTodoQuery_def)
  show "\<forall>s. rq_limit rq = Some s \<and>
        (decimal s \<and> (decimal_value s < 1 \<or> 100 < decimal_value s) \<or> s \<noteq> [] \<and> parseInt s = None) \<longrightarrow>
      validateTodoQuery rq = Inl (failure 400 ''INVALID_STATUS'') \<or>
      validateTodoQuery rq = Inl (failure 400 ''INVALID_LIMIT'')"
  proof (intro allI impI)
    fix s
    assume a: "rq_limit rq = Some s \<and>
        (decimal s \<and> (decimal_value s < 1 \<or> 100 < decimal_value s) \<or> s \<noteq> [] \<and> parseInt s = None)"
    then consider (range) "decimal s" "decimal_value s < 1 \<or> 100 < decimal_value s"
      | (unreadable) "s \<noteq> []" "parseInt s = None" by auto
    then show "validateTodoQuery rq = Inl (failure 400 ''INVALID_STATUS'') \<or>
      validateTodoQuery rq = Inl (failure 400 ''INVALID_LIMIT'')"
    proof cases
      case range
      have "given (rq_limit rq)" using a range by (simp add: decimal_given)
      moreover have "parseInt (the (rq_limit rq)) = Some (to_double (decimal_value s))"
        using a range by (simp add: parseInt_decimal)
      moreover have "to_double (decimal_value s) < 1 \<or> 100 < to_double (decimal_value s)"
        using range(2) by (simp only: to_double_limit)
      ultimately show ?thesis by (rule limit_rejected)
    next
      case unreadable
      then show ?thesis using a by (intro limit_unreadable) (simp_all add: given_def)
    qed
  qed
  show "\<forall>s. rq_offset rq = Some s \<and>
        (decimal s \<and> decimal_value s < 0 \<or> s \<noteq> [] \<and> parseInt s = None) \<longrightarrow>
      (\<exists>c. validateTodoQuery rq = Inl (failure 400 c))"
  proof (intro allI impI)
    fix s
    assume a: "rq_offset rq = Some s \<and>
        (decimal s \<and> decimal_value s < 0 \<or> s \<noteq> [] \<and> parseInt s = None)"
    then consider (negative) "decimal s" "decimal_value s < 0"
      | (unreadable) "s \<noteq> []" "parseInt s = None" by auto
    then show "\<exists>c. validateTodoQuery rq = Inl (failure 400 c)"
    proof cases
      case negative
      have "given (rq_offset rq)" using a negative by (simp add: decimal_given)
      moreover have "parseInt (the (rq_offset rq)) = Some (to_double (decimal_value s))"
        using a negative by (simp add: parseInt_decimal)
      moreover have "to_double (decimal_value s) < 0"
        using negative(2) by (simp only: to_double_negative)
      ultimately show ?thesis by (rule offset_rejected)
    next
      case unreadable
      then show ?thesis using a by (intro offset_unreadable) (simp_all add: given_def)
    qed
  qed
  show "\<forall>resp. validateTodoQuery rq = Inl resp \<longrightarrow>
      status resp = 400 \<and>
      (req_method req = GET \<and> req_path req = [] \<and> req_query req = rq \<longrightarrow>
         routes e u req st = (Some resp, st))"
    by (auto simp: routes_def dest: validateTodoQuery_Inl)
  show "(\<not> given (rq_status rq) \<or> the (rq_status rq) \<in> {''all'', ''completed'', ''pending''}) \<and>
    (\<not> given (rq_limit rq) \<or>
       decimal (the (rq_limit rq)) \<and> 1 \<le> decimal_value (the (rq_limit rq)) \<and>
       decimal_value (the (rq_limit rq)) \<le> 100) \<and>
    (\<not> given (rq_offset rq) \<or>
       decimal (the (rq_offset rq)) \<and> 0 \<le> decimal_value (the (rq_offset rq))) \<longrightarrow>
      validateTodoQuery rq =
        Inr \<lparr>q_status = rq_status rq,
             q_limit = (if given (rq_limit rq) then decimal_value (the (rq_limit rq)) else 50),
             q_offset = (if given (rq_offset rq) then to_double (decimal_value (the (rq_offset rq))) else 0)\<rparr>"
    using accepted[of rq] by blast
  show "\<forall>q. validateTodoQuery rq = Inr q \<longrightarrow>
      q_status q = rq_status rq \<and> 1 \<le> q_limit q \<and> q_limit q \<le> 100 \<and> 0 \<le> q_offset q \<and>
      (\<not> given (rq_limit rq) \<longrightarrow> q_limit q = 50) \<and>
      (\<not> given (rq_offset rq) \<longrightarrow> q_offset q = 0)"
    using validateTodoQuery_Inr[of rq] by blast
qed

text \<open>
  As the claim is written it fails on empty parameters, which the validation takes as
  missing: the status \<open>''\<close> is none of the three and the offset \<open>''\<close> is not a number,
  and the query is accepted, with no filter and offset 0.
\<close>

theorem query_validation_counterexample:
  "validateTodoQuery \<lparr>rq_status = Some [], rq_limit = None, rq_offset = Some []\<rparr>
     = Inr \<lparr>q_status = Some [], q_limit = 50, q_offset = 0\<rparr>"
  by (simp add: validateTodoQuery_def given_def to_double_small)

lemma parseInt_abc: "parseInt ''abc'' = None"
  by (simp add: parseInt_def strip_sign_def strip_prefix_def space1_def space2_def space3_def digit_of_def)

theorem query_validation_witness:
  "''abc'' \<noteq> [] \<and> parseInt ''abc'' = None \<and>
   validateTodoQuery \<lparr>rq_status = None, rq_limit = None, rq_offset = Some ''abc''\<rparr>
     = Inl (failure 400 ''INVALID_OFFSET'') \<and>
   routes example_env \<lparr>uid = ''alice'', username = ''alice'', email = ''a@x.com''\<rparr>
      (example_get \<lparr>rq_status = None, rq_limit = None, rq_offset = Some ''abc''\<rparr>) example_store
     = (Some (failure 400 ''INVALID_OFFSET''), example_store) \<and>
   decimal ''101'' \<and> decimal_value ''101'' = 101 \<and>
   validateTodoQuery \<lparr>rq_status = None, rq_limit = Some ''101'', rq_offset = None\<rparr>
     = Inl (failure 400 ''INVALID_LIMIT'')"
proof -
  have h1: "''abc'' \<noteq> []" by simp
  have h2: "parseInt ''abc'' = None" by (rule parseInt_abc)
  have h3: "validateTodoQuery \<lparr>rq_status = None, rq_limit = None, rq_offset = Some ''abc''\<rparr>
     = Inl (failure 400 ''INVALID_OFFSET'')"
    by (simp add: validateTodoQuery_def given_def h2)
  have h4: "decimal ''101''" by (simp add: decimal_def is_digit_def)
  have h5: "decimal_value ''101'' = 101" by (simp add: decimal_value_def digits_value_def digit_value_def)
  have h6: "validateTodoQuery \<lparr>rq_status = None, rq_limit = Some ''101'', rq_offset = None\<rparr>
     = Inl (failure 400 ''INVALID_LIMIT'')"
    using h4 h5 parseInt_decimal[of "''101''"] by (simp add: validateTodoQuery_def given_def to_double_small)
  show ?thesis
    using h1 h2 h3 h4 h5 h6
      query_validation [of "\<lparr>rq_status = None, rq_limit = None, rq_offset = Some ''abc''\<rparr>"
        "example_get \<lparr>rq_status = None, rq_limit = None, rq_offset = Some ''abc''\<rparr>"
        example_env "\<lparr>uid = ''alice'', username = ''alice'', email = ''a@x.com''\<rparr>" example_store]
    by (simp add: example_get_def)
qed

section \<open>Creation\<close>

text \<open>
  C7 (amended). For every owner, title and description, \<open>create\<close>, called as the POST
  handler calls it, either fails with a constraint error, or returns a Todo with the
  generated identifier and \<open>completed = false\<close>, whose \<open>created_at\<close> and \<open>updated_at\<close>
  are \<open>undefined\<close>. It returns the Todo exactly when the title does not bind to NULL
  and no stored row has the generated identifier, and then the table has gained one
  row with that identifier, the owner, \<open>completed\<close> 0 and both timestamps set to the
  current time.
\<close>

theorem create_result:
  "(fst (create (todoData ownerId ti d) uuidv4 n st) = Inr (Todo (todoData ownerId ti d) uuidv4) \<or>
    create (todoData ownerId ti d) uuidv4 n st = (Inl SQLITE_CONSTRAINT, run INSERT st)) \<and>
   (fst (create (todoData ownerId ti d) uuidv4 n st) = Inr (Todo (todoData ownerId ti d) uuidv4)
      \<longleftrightarrow> bind_param ti \<noteq> SNull \<and> (\<forall>r \<in> set (todos st). row_id r \<noteq> SText uuidv4)) \<and>
   todo_id (Todo (todoData ownerId ti d) uuidv4) = JStr uuidv4 \<and>
   completed (Todo (todoData ownerId ti d) uuidv4) = JBool False \<and>
   created_at (Todo (todoData ownerId ti d) uuidv4) = JUndefined \<and>
   updated_at (Todo (todoData ownerId ti d) uuidv4) = JUndefined \<and>
   (\<forall>t. fst (create (todoData ownerId ti d) uuidv4 n st) = Inr t \<longrightarrow>
      snd (create (todoData ownerId ti d) uuidv4 n st) =
        run INSERT (st\<lparr>todos := todos st @
          [\<lparr>row_id = SText uuidv4, row_user_id = SText ownerId, row_title = text_affinity (bind_param ti),
            row_description = text_affinity (bind_param (js_or d JNull)), row_completed = SInt 0,
            row_created_at = n, row_updated_at = n\<rparr>]\<rparr>))"
  by (auto simp: create_def Let_def db_insert_def affinity_def Todo_def todoData_def js_or_def list_ex_iff sql_eq_def)

text \<open>
  As the claim is written it fails: the Todo that \<open>create\<close> returns, and that the
  POST response carries, has no timestamps, at whatever time it is created.
\<close>

theorem create_result_counterexample:
  "fst (create (todoData ''alice'' (JStr ''Buy milk'') JUndefined) ''a9'' 50 example_store)
     = Inr \<lparr>todo_id = JStr ''a9'', user_id = JStr ''alice'', title = JStr ''Buy milk'',
            description = JNull, completed = JBool False,
            created_at = JUndefined, updated_at = JUndefined\<rparr> \<and>
   fst (post_todo ''alice'' [(''title'', JStr ''Buy milk'')] ''a9'' 50 example_store)
     = success 201 (TodoData \<lparr>todo_id = JStr ''a9'', user_id = JStr ''alice'', title = JStr ''Buy milk'',
            description = JNull, completed = JBool False,
            created_at = JUndefined, updated_at = JUndefined\<rparr>)"
  by (simp add: post_todo_def property_def create_def Let_def db_insert_def affinity_def sql_eq_def Todo_def todoData_def
        js_or_def example_store_def example_row_def toJSON_def)

theorem create_result_witness:
  "bind_param (JStr ''Buy milk'') \<noteq> SNull \<and>
   fst (create (todoData ''alice'' (JStr ''Buy milk'') JUndefined) ''a9'' 50 example_store)
     = Inr (Todo (todoData ''alice'' (JStr ''Buy milk'') JUndefined) ''a9'') \<and>
   todos (snd (create (todoData ''alice'' (JStr ''Buy milk'') JUndefined) ''a9'' 50 example_store))
     = todos example_store @
         [\<lparr>row_id = SText ''a9'', row_user_id = SText ''alice'', row_title = SText ''Buy milk'',
           row_description = SNull, row_completed = SInt 0, row_created_at = 50, row_updated_at = 50\<rparr>]"
proof -
  have h: "bind_param (JStr ''Buy milk'') \<noteq> SNull \<and> (\<forall>r \<in> set (todos example_store). row_id r \<noteq> SText ''a9'')"
    by (simp add: example_store_def example_row_def)
  show ?thesis
    using h create_result [of "''alice''" "JStr ''Buy milk''" JUndefined "''a9''" 50 example_store]
    by (simp add: js_or_def)
qed

section \<open>Partial update\<close>

lemma set_property_fields:
  "todo_id (set_property p t) = (if fst p = ''id'' then snd p else todo_id t)"
  "user_id (set_property p t) = (if fst p = ''user_id'' then snd p else user_id t)"
  "title (set_property p t) = (if fst p = ''title'' then snd p else title t)"
  "description (set_property p t) = (if fst p = ''description'' then snd p else description t)"
  "completed (set_property p t) = (if fst p = ''completed'' then snd p else completed t)"
  "created_at (set_property p t) = (if fst p = ''created_at'' then snd p else created_at t)"
  "updated_at (set_property p t) = (if fst p = ''updated_at'' then snd p else updated_at t)"
  "todo.more (set_property p t) = todo.more t"
  by (simp_all add: set_property_def)

lemma set_column_fields:
  "row_title (set_column a r) = (if fst a = ''title'' then text_affinity (snd a) else row_title r)"
  "row_description (set_column a r) = (if fst a = ''description'' then text_affinity (snd a) else row_description r)"
  "row_completed (set_column a r) = (if fst a = ''completed'' then numeric_affinity (snd a) else row_completed r)"
  "row.more (set_column a r) = row.more r"
  by (simp_all add: set_column_def)

lemma map_of_Cons_distinct:
  "distinct (map fst (x # xs)) \<Longrightarrow>
     map_of (x # xs) k = (if k = fst x then Some (snd x) else map_of xs k)"
  by (cases x) simp

lemma map_of_head_None:
  "distinct (map fst (x # xs)) \<Longrightarrow> map_of xs (fst x) = None"
  by (simp add: map_of_eq_None_iff)


lemma fold_assigned:
  assumes "\<And>p t. g (step p t) = (if fst p = k then h (snd p) else g t)"
    and "distinct (map fst xs)"
  shows "g (fold step xs t) = (case map_of xs k of None \<Rightarrow> g t | Some v \<Rightarrow> h v)"
  using assms(2)
proof (induction xs arbitrary: t)
  case Nil
  then show ?case by simp
next
  case (Cons x xs)
  have ih: "g (fold step xs (step x t)) = (case map_of xs k of None \<Rightarrow> g (step x t) | Some v \<Rightarrow> h v)"
    using Cons by simp
  show ?case
  proof (cases "fst x = k")
    case True
    then have "map_of xs k = None" using map_of_head_None[OF Cons.prems] by simp
    then show ?thesis using True ih assms(1) by (simp add: map_of_Cons_distinct[OF Cons.prems])
  next
    case False
    then have "g (step x t) = g t" using assms(1)[of x t] by simp
    then show ?thesis using False ih
      by (simp add: map_of_Cons_distinct[OF Cons.prems] split: option.splits)
  qed
qed

lemma fold_set_property_untouched:
  assumes "\<forall>p \<in> set xs. fst p \<in> set allowedFields"
  shows "todo_id (fold set_property xs t) = todo_id t"
    "user_id (fold set_property xs t) = user_id t"
    "created_at (fold set_property xs t) = created_at t"
    "updated_at (fold set_property xs t) = updated_at t"
    "todo.more (fold set_property xs t) = todo.more t"
  using assms by (induction xs arbitrary: t; auto simp: set_property_fields allowedFields_def)+

lemma Object_assign_allowed:
  assumes "distinct (map fst xs)" "\<forall>p \<in> set xs. fst p \<in> set allowedFields"
  shows "Object_assign t xs =
           t\<lparr>title := (case map_of xs ''title'' of None \<Rightarrow> title t | Some v \<Rightarrow> v),
             description := (case map_of xs ''description'' of None \<Rightarrow> description t | Some v \<Rightarrow> v),
             completed := (case map_of xs ''completed'' of None \<Rightarrow> completed t | Some v \<Rightarrow> v)\<rparr>"
proof (rule todo.equality)
  show "title (Object_assign t xs) = title (t\<lparr>title := (case map_of xs ''title'' of None \<Rightarrow> title t | Some v \<Rightarrow> v),
             description := (case map_of xs ''description'' of None \<Rightarrow> description t | Some v \<Rightarrow> v),
             completed := (case map_of xs ''completed'' of None \<Rightarrow> completed t | Some v \<Rightarrow> v)\<rparr>)"
    using fold_assigned[of title set_property "''title''" "\<lambda>v. v", OF _ assms(1)]
    by (simp add: Object_assign_def set_property_fields)
  show "description (Object_assign t xs) = description (t\<lparr>title := (case map_of xs ''title'' of None \<Rightarrow> title t | Some v \<Rightarrow> v),
             description := (case map_of xs ''description'' of None \<Rightarrow> description t | Some v \<Rightarrow> v),
             completed := (case map_of xs ''completed'' of None \<Rightarrow> completed t | Some v \<Rightarrow> v)\<rparr>)"
    using fold_assigned[of description set_property "''description''" "\<lambda>v. v", OF _ assms(1)]
    by (simp add: Object_assign_def set_property_fields)
  show "completed (Object_assign t xs) = completed (t\<lparr>title := (case map_of xs ''title'' of None \<Rightarrow> title t | Some v \<Rightarrow> v),
             description := (case map_of xs ''description'' of None \<Rightarrow> description t | Some v \<Rightarrow> v),
             completed := (case map_of xs ''completed'' of None \<Rightarrow> completed t | Some v \<Rightarrow> v)\<rparr>)"
    using fold_assigned[of completed set_property "''completed''" "\<lambda>v. v", OF _ assms(1)]
    by (simp add: Object_assign_def set_property_fields)
qed (simp_all add: Object_assign_def fold_set_property_untouched[OF assms(2)])


lemma fold_set_column_more [simp]: "row.more (fold set_column a r) = row.more r"
  by (induction a arbitrary: r) (simp_all add: set_column_fields)

lemma updated_row_allowed:
  assumes "distinct (map fst xs)"
  shows "updated_row (map (\<lambda>p. (fst p, bind_param (snd p))) xs) n r =
           r\<lparr>row_title := (case map_of xs ''title'' of None \<Rightarrow> row_title r | Some v \<Rightarrow> text_affinity (bind_param v)),
             row_description := (case map_of xs ''description'' of None \<Rightarrow> row_description r | Some v \<Rightarrow> text_affinity (bind_param v)),
             row_completed := (case map_of xs ''completed'' of None \<Rightarrow> row_completed r | Some v \<Rightarrow> numeric_affinity (bind_param v)),
             row_updated_at := n\<rparr>"
proof -
  let ?step = "\<lambda>p. set_column (fst p, bind_param (snd p))"
  have f: "fold set_column (map (\<lambda>p. (fst p, bind_param (snd p))) xs) r = fold ?step xs r"
    by (simp add: fold_map comp_def)
  have a: "row_title (fold ?step xs r) = (case map_of xs ''title'' of None \<Rightarrow> row_title r | Some v \<Rightarrow> text_affinity (bind_param v))"
    using fold_assigned[of row_title ?step "''title''" "\<lambda>v. text_affinity (bind_param v)", OF _ assms]
    by (simp add: set_column_fields)
  have b: "row_description (fold ?step xs r) = (case map_of xs ''description'' of None \<Rightarrow> row_description r | Some v \<Rightarrow> text_affinity (bind_param v))"
    using fold_assigned[of row_description ?step "''description''" "\<lambda>v. text_affinity (bind_param v)", OF _ assms]
    by (simp add: set_column_fields)
  have c: "row_completed (fold ?step xs r) = (case map_of xs ''completed'' of None \<Rightarrow> row_completed r | Some v \<Rightarrow> numeric_affinity (bind_param v))"
    using fold_assigned[of row_completed ?step "''completed''" "\<lambda>v. numeric_affinity (bind_param v)", OF _ assms]
    by (simp add: set_column_fields)
  show ?thesis
    by (rule row.equality) (simp_all add: updated_row_def a[folded f] b[folded f] c[folded f])
qed

lemma integer_literal_examples:
  "integer_literal ''0'' = Some 0" "integer_literal ''1'' = Some 1"
  "integer_literal ''true'' = None" "integer_literal ''false'' = None"
  by (simp_all add: integer_literal_def ascii_space_def strip_sign_def is_digit_def digits_value_def
        digit_value_def)

lemma completed_stored:
  "numeric_affinity (bind_param (JBool b)) = SInt (if b then 1 else 0)"
  "numeric_affinity (bind_param (JNum k)) = SInt k"
  "numeric_affinity (bind_param JNull) = SNull"
  "numeric_affinity (bind_param (JStr ''0'')) = SInt 0"
  "numeric_affinity (bind_param (JStr ''1'')) = SInt 1"
  "numeric_affinity (bind_param (JStr ''true'')) = SText ''true''"
  "numeric_affinity (bind_param (JStr ''false'')) = SText ''false''"
  by (simp_all add: integer_literal_examples)

lemma text_stored: "text_affinity (bind_param (JStr s)) = SText s"
  by simp

text \<open>
  C6 (amended). For every Todo read from the table and every payload as the PUT
  route hands one on, with only \<open>title\<close>, \<open>description\<close> and \<open>completed\<close>, each at most
  once (title and description strings, \<open>completed\<close> a value its validation passes):
  with the empty payload \<open>update\<close> writes nothing, runs no statement, refreshes no
  timestamp and returns the Todo as it is. With any other payload it either fails
  with a constraint error and changes no row (when a row of that id would end with a
  NULL title), or it sets, in every stored row of that id, the supplied columns from
  the supplied values (converted as the column's affinity has it) and \<open>updated_at\<close>
  to the current time, leaving the other columns and all other rows as they were,
  and returns the Todo with the supplied properties set to the supplied values and
  every other property, \<open>updated_at\<close> included, as it was before the call. So after
  an update with only \<open>completed\<close>, title and description are the same as before,
  stored and returned.
\<close>

theorem update_partial:
  assumes "\<forall>p \<in> set updateData.
             (fst p = ''title'' \<or> fst p = ''description'') \<and> (\<exists>s. snd p = JStr s) \<or>
             fst p = ''completed'' \<and>
             snd p \<in> {JBool False, JBool True, JNum 0, JNum 1,
                      JStr ''0'', JStr ''1'', JStr ''true'', JStr ''false''}"
    and "distinct (map fst updateData)"
    and "todo_id this = JStr i"
  shows "update this updateData n st =
     (if updateData = [] then (Inr this, st)
      else if \<exists>r \<in> set (todos st). sql_eq (row_id r) (SText i) \<and>
           (case map_of updateData ''title'' of None \<Rightarrow> row_title r | Some v \<Rightarrow> text_affinity (bind_param v)) = SNull
      then (Inl SQLITE_CONSTRAINT, run UPDATE st)
      else (Inr (this\<lparr>title := (case map_of updateData ''title'' of None \<Rightarrow> title this | Some v \<Rightarrow> v),
                      description := (case map_of updateData ''description'' of None \<Rightarrow> description this | Some v \<Rightarrow> v),
                      completed := (case map_of updateData ''completed'' of None \<Rightarrow> completed this | Some v \<Rightarrow> v)\<rparr>),
            run UPDATE (st\<lparr>todos :=
              map (\<lambda>r. if sql_eq (row_id r) (SText i)
                       then r\<lparr>row_title := (case map_of updateData ''title'' of None \<Rightarrow> row_title r | Some v \<Rightarrow> text_affinity (bind_param v)),
                              row_description := (case map_of updateData ''description'' of None \<Rightarrow> row_description r | Some v \<Rightarrow> text_affinity (bind_param v)),
                              row_completed := (case map_of updateData ''completed'' of None \<Rightarrow> row_completed r | Some v \<Rightarrow> numeric_affinity (bind_param v)),
                              row_updated_at := n\<rparr>
                       else r) (todos st)\<rparr>)))"
proof -
  have a: "\<forall>p \<in> set updateData. fst p \<in> set allowedFields \<and> snd p \<noteq> JUndefined"
    using assms(1) by (auto simp: allowedFields_def)
  have s: "filter supplied updateData = updateData"
    using a by (simp add: supplied_def)
  have k: "\<forall>p \<in> set updateData. fst p \<in> set allowedFields"
    using a by simp
  show ?thesis
  proof (cases "updateData = []")
    case True
    then show ?thesis by (simp add: update_def)
  next
    case False
    then show ?thesis
      by (simp add: update_def s db_update_def list_ex_iff updated_row_allowed[OF assms(2)]
            Object_assign_allowed[OF assms(2) k] assms(3))
  qed
qed

text \<open>
  As the claim is written it fails in two places. With the empty payload, which has
  none of the three optional properties, nothing is written and no timestamp is
  refreshed. And after a write the Todo returned is not refreshed: the PUT response
  still shows the old \<open>updated_at\<close> (10) although the stored row has the new one (99),
  which the next GET shows.
\<close>

theorem update_partial_counterexample:
  "put_todo ''alice'' ''a1'' [] ''u'' 99 example_store
     = (success 200 (TodoData
          \<lparr>todo_id = JStr ''a1'', user_id = JStr ''alice'', title = JStr ''Buy milk'',
           description = JNull, completed = JBool False,
           created_at = JNum 10, updated_at = JNum 10\<rparr>),
        run SELECT_BY_ID example_store) \<and>
   fst (put_todo ''alice'' ''a1'' [(''completed'', JBool True)] ''u'' 99 example_store)
     = success 200 (TodoData
         \<lparr>todo_id = JStr ''a1'', user_id = JStr ''alice'', title = JStr ''Buy milk'',
          description = JNull, completed = JBool True,
          created_at = JNum 10, updated_at = JNum 10\<rparr>) \<and>
   select_by_id ''a1'' (todos (snd (put_todo ''alice'' ''a1'' [(''completed'', JBool True)] ''u'' 99 example_store)))
     = Some \<lparr>row_id = SText ''a1'', row_user_id = SText ''alice'', row_title = SText ''Buy milk'',
            row_description = SNull, row_completed = SInt 1,
            row_created_at = 10, row_updated_at = 99\<rparr> \<and>
   fst (get_todo ''alice'' ''a1'' ''u''
          (snd (put_todo ''alice'' ''a1'' [(''completed'', JBool True)] ''u'' 99 example_store)))
     = success 200 (TodoData
         \<lparr>todo_id = JStr ''a1'', user_id = JStr ''alice'', title = JStr ''Buy milk'',
          description = JNull, completed = JBool True,
          created_at = JNum 10, updated_at = JNum 99\<rparr>)"
  by (simp add: put_todo_def get_todo_def findById_def select_by_id_def example_store_def example_row_def
        update_def supplied_def allowedFields_def db_update_def updated_row_def set_column_def
        Object_assign_def set_property_def toJSON_def belongsToUser_def Todo_def row_object_def
        js_or_def sql_eq_def)

theorem update_partial_witness:
  "update (Todo (row_object (example_row ''a1'' ''alice'' 0 10)) ''u'') [(''completed'', JBool True)] 99 example_store
     = (Inr \<lparr>todo_id = JStr ''a1'', user_id = JStr ''alice'', title = JStr ''Buy milk'',
              description = JNull, completed = JBool True,
              created_at = JNum 10, updated_at = JNum 10\<rparr>,
        \<lparr>todos = [\<lparr>row_id = SText ''a1'', row_user_id = SText ''alice'', row_title = SText ''Buy milk'',
                    row_description = SNull, row_completed = SInt 1,
                    row_created_at = 10, row_updated_at = 99\<rparr>,
                  example_row ''b1'' ''bob'' 1 20, example_row ''a2'' ''alice'' 1 30,
                  example_row ''a3'' ''alice'' 0 40],
         calls = [UPDATE]\<rparr>) \<and>
   update (Todo (row_object (example_row ''a1'' ''alice'' 0 10)) ''u'') [] 99 example_store
     = (Inr (Todo (row_object (example_row ''a1'' ''alice'' 0 10)) ''u''), example_store)"
proof -
  have h1: "\<forall>p \<in> set [(''completed'', JBool True)].
             (fst p = ''title'' \<or> fst p = ''description'') \<and> (\<exists>s. snd p = JStr s) \<or>
             fst p = ''completed'' \<and>
             snd p \<in> {JBool False, JBool True, JNum 0, JNum 1,
                      JStr ''0'', JStr ''1'', JStr ''true'', JStr ''false''}"
    by simp
  have h2: "distinct (map fst [(''completed'', JBool True)])" by simp
  have h3: "todo_id (Todo (row_object (example_row ''a1'' ''alice'' 0 10)) ''u'') = JStr ''a1''"
    by (simp add: Todo_def row_object_def example_row_def js_or_def)
  have g1: "\<forall>p \<in> set ([] :: (string \<times> jsval) list).
             (fst p = ''title'' \<or> fst p = ''description'') \<and> (\<exists>s. snd p = JStr s) \<or>
             fst p = ''completed'' \<and>
             snd p \<in> {JBool False, JBool True, JNum 0, JNum 1,
                      JStr ''0'', JStr ''1'', JStr ''true'', JStr ''false''}"
    by simp
  have g2: "distinct (map fst ([] :: (string \<times> jsval) list))" by simp
  show ?thesis
    using update_partial [OF h1 h2 h3, of 99 example_store]
      update_partial [OF g1 g2 h3, of 99 example_store]
    by (simp add: example_store_def example_row_def Todo_def row_object_def js_or_def sql_eq_def run_def)
qed

section \<open>Listing by status\<close>

lemma map_enumerate_const:
  assumes "\<And>i r. r \<in> set xs \<Longrightarrow> h i r = g r"
  shows "map (\<lambda>(i, r). h i r) (enumerate n xs) = map g xs"
  using assms by (induction xs arbitrary: n) auto

lemma map_snd_enumerate_fun:
  "map (\<lambda>x. f (snd x)) (enumerate n xs) = map f xs"
  by (induction xs arbitrary: n) auto

lemma Todo_row_ok:
  "truthy (column_value (row_id r)) \<Longrightarrow> Todo (row_object r) u = Todo (row_object r) []"
  by (simp add: Todo_def row_object_def js_or_def)

lemma findByUserId_rows_ok:
  assumes "list_all row_ok (todos st)" "fst (findByUserId userId opts uuids st) = Inr ts"
  shows "ts = map (\<lambda>r. Todo (row_object r) []) (select_by_user userId opts (todos st))"
proof -
  have "\<And>i r. r \<in> set (select_by_user userId opts (todos st)) \<Longrightarrow>
          Todo (row_object r) (uuids i) = Todo (row_object r) []"
    using assms(1) by (auto dest!: select_by_user_elem simp: list_all_iff row_ok_def intro: Todo_row_ok)
  then show ?thesis
    unfolding findByUserId_Inr[OF assms(2)]
    by (simp add: map_enumerate_const[where h = "\<lambda>i r. Todo (row_object r) (uuids i)"])
qed

lemma set_select_unpaged:
  "set (select_by_user userId \<lparr>opt_status = Some s, opt_limit = Some (- 1), opt_offset = Some 0\<rparr> rows)
     = {r \<in> set rows. where_user userId s r}"
  by (simp add: select_by_user_def order_by_created_at_desc_def)

lemma where_user_all:
  "row_ok r \<Longrightarrow> where_user userId ''all'' r \<longleftrightarrow> where_user userId ''pending'' r \<or> where_user userId ''completed'' r"
  by (auto simp: where_user_def row_ok_def sql_eq_def)

lemma map_limit_offset: "map f (limit_offset l off xs) = limit_offset l off (map f xs)"
  by (simp add: limit_offset_def take_map drop_map)

lemma sorted_limit_offset:
  "sorted xs \<Longrightarrow> sorted (limit_offset l off xs)"
  by (simp add: limit_offset_def sorted_wrt_take sorted_wrt_drop)

text \<open>Under every status the creation times of a listing never increase (newest first).\<close>

lemma created_at_sorted:
  assumes "fst (findByUserId userId opts uuids st) = Inr ts"
  shows "\<exists>times. map created_at ts = map JNum times \<and> sorted_wrt (\<ge>) times"
proof -
  let ?rows = "select_by_user userId opts (todos st)"
  let ?times = "map (\<lambda>r. int (row_created_at r)) ?rows"
  have "map created_at ts = map (\<lambda>r. JNum (int (row_created_at r))) ?rows"
    unfolding findByUserId_Inr[OF assms]
    by (simp add: Todo_def row_object_def case_prod_unfold comp_def
          map_snd_enumerate_fun[of "\<lambda>r. JNum (int (row_created_at r))"])
  then have a: "map created_at ts = map JNum ?times"
    by (simp add: comp_def)
  have "sorted (map (\<lambda>r. - int (row_created_at r)) ?rows)"
    unfolding select_by_user_def Let_def order_by_created_at_desc_def map_limit_offset
    by (intro sorted_limit_offset sorted_sort_key)
  then have "sorted_wrt (\<ge>) ?times"
    by (simp add: sorted_wrt_map)
  then show ?thesis using a by blast
qed

lemma sql_eq_SInt [simp]: "sql_eq v (SInt n) \<longleftrightarrow> v = SInt n"
  by (auto simp: sql_eq_def)

text \<open>A pending listing has no completed todo and a completed listing no pending one.\<close>

lemma completed_pending:
  assumes "fst (findByUserId userId \<lparr>opt_status = Some ''pending'', opt_limit = lo, opt_offset = oo\<rparr> uuids st) = Inr ts"
    and "t \<in> set ts"
  shows "completed (toJSON t) = JBool False"
  using findByUserId_elem[OF assms]
  by (auto dest!: select_by_user_elem simp: where_user_def toJSON_def Todo_def row_object_def js_or_def)

lemma completed_completed:
  assumes "fst (findByUserId userId \<lparr>opt_status = Some ''completed'', opt_limit = lo, opt_offset = oo\<rparr> uuids st) = Inr ts"
    and "t \<in> set ts"
  shows "completed (toJSON t) = JBool True"
  using findByUserId_elem[OF assms]
  by (auto dest!: select_by_user_elem simp: where_user_def toJSON_def Todo_def row_object_def js_or_def)

text \<open>
  On a table whose \<open>completed\<close> column holds only 0 and 1, the listing of all todos is
  the union of the other two.
\<close>

lemma all_is_union:
  assumes "list_all row_ok (todos st)"
  shows "\<exists>a p c.
      fst (findByUserId userId \<lparr>opt_status = Some ''all'', opt_limit = Some (- 1), opt_offset = Some 0\<rparr> uuids1 st) = Inr a \<and>
      fst (findByUserId userId \<lparr>opt_status = Some ''pending'', opt_limit = Some (- 1), opt_offset = Some 0\<rparr> uuids2 st) = Inr p \<and>
      fst (findByUserId userId \<lparr>opt_status = Some ''completed'', opt_limit = Some (- 1), opt_offset = Some 0\<rparr> uuids3 st) = Inr c \<and>
      set a = set p \<union> set c"
proof -
  obtain a where a: "fst (findByUserId userId \<lparr>opt_status = Some ''all'', opt_limit = Some (- 1), opt_offset = Some 0\<rparr> uuids1 st) = Inr a"
    by (simp add: findByUserId_fits)
  obtain p where p: "fst (findByUserId userId \<lparr>opt_status = Some ''pending'', opt_limit = Some (- 1), opt_offset = Some 0\<rparr> uuids2 st) = Inr p"
    by (simp add: findByUserId_fits)
  obtain c where c: "fst (findByUserId userId \<lparr>opt_status = Some ''completed'', opt_limit = Some (- 1), opt_offset = Some 0\<rparr> uuids3 st) = Inr c"
    by (simp add: findByUserId_fits)
  have "{r \<in> set (todos st). where_user userId ''all'' r}
      = {r \<in> set (todos st). where_user userId ''pending'' r} \<union> {r \<in> set (todos st). where_user userId ''completed'' r}"
    using assms where_user_all by (auto simp: list_all_iff)
  then have "set a = set p \<union> set c"
    by (simp add: findByUserId_rows_ok[OF assms a] findByUserId_rows_ok[OF assms p]
          findByUserId_rows_ok[OF assms c] set_select_unpaged image_Un [symmetric])
  then show ?thesis using a p c by (intro exI conjI)
qed

text \<open>
  C4. The claim fails in the code. The validation of the PUT route checks \<open>completed\<close>
  with \<open>isBoolean()\<close>, which also passes the strings \<^verbatim>\<open>true\<close>, \<^verbatim>\<open>false\<close>, \<^verbatim>\<open>1\<close> and \<^verbatim>\<open>0\<close>,
  and hands the payload on as it came. After \<^verbatim>\<open>PUT /api/todos/a1\<close> with the body
  \<^verbatim>\<open>{"completed": "true"}\<close>, which answers 200, the row keeps the text \<^verbatim>\<open>true\<close>, which
  is neither 0 nor 1: the todo is listed under status all, and under neither pending
  nor completed, so the listing of all is not the union of the other two.
\<close>

theorem listing_by_status_divergence:
  "map_option status (fst (router example_env example_put example_store)) = Some 200 \<and>
   map row_completed (todos (snd (router example_env example_put example_store)))
     = [SText ''true'', SInt 1, SInt 1, SInt 0] \<and>
   map_sum id (map todo_id)
     (fst (findByUserId ''alice'' \<lparr>opt_status = Some ''all'', opt_limit = Some 50, opt_offset = Some 0\<rparr>
        (\<lambda>k. ''u'') (snd (router example_env example_put example_store))))
     = Inr [JStr ''a3'', JStr ''a2'', JStr ''a1''] \<and>
   map_sum id (map todo_id)
     (fst (findByUserId ''alice'' \<lparr>opt_status = Some ''pending'', opt_limit = Some 50, opt_offset = Some 0\<rparr>
        (\<lambda>k. ''u'') (snd (router example_env example_put example_store))))
     = Inr [JStr ''a3''] \<and>
   map_sum id (map todo_id)
     (fst (findByUserId ''alice'' \<lparr>opt_status = Some ''completed'', opt_limit = Some 50, opt_offset = Some 0\<rparr>
        (\<lambda>k. ''u'') (snd (router example_env example_put example_store))))
     = Inr [JStr ''a2'']"
proof -
  have st: "todos (snd (router example_env example_put example_store))
      = [(example_row ''a1'' ''alice'' 0 10)\<lparr>row_completed := SText ''true'', row_updated_at := 99\<rparr>,
         example_row ''b1'' ''bob'' 1 20, example_row ''a2'' ''alice'' 1 30,
         example_row ''a3'' ''alice'' 0 40]"
    by code_simp
  have r: "map_option status (fst (router example_env example_put example_store)) = Some 200"
    by code_simp
  have c: "map row_completed (todos (snd (router example_env example_put example_store)))
     = [SText ''true'', SInt 1, SInt 1, SInt 0]"
    unfolding st by (simp add: example_row_def)
  have a: "map_sum id (map todo_id)
     (fst (findByUserId ''alice'' \<lparr>opt_status = Some ''all'', opt_limit = Some 50, opt_offset = Some 0\<rparr>
        (\<lambda>k. ''u'') (snd (router example_env example_put example_store))))
     = Inr [JStr ''a3'', JStr ''a2'', JStr ''a1'']"
    by code_simp
  have p: "map_sum id (map todo_id)
     (fst (findByUserId ''alice'' \<lparr>opt_status = Some ''pending'', opt_limit = Some 50, opt_offset = Some 0\<rparr>
        (\<lambda>k. ''u'') (snd (router example_env example_put example_store))))
     = Inr [JStr ''a3'']"
    by code_simp
  have d: "map_sum id (map todo_id)
     (fst (findByUserId ''alice'' \<lparr>opt_status = Some ''completed'', opt_limit = Some 50, opt_offset = Some 0\<rparr>
        (\<lambda>k. ''u'') (snd (router example_env example_put example_store))))
     = Inr [JStr ''a2'']"
    by code_simp
  show ?thesis by (intro conjI r c a p d)
qed

section \<open>What the writes keep of a table\<close>

text \<open>
  The primary key holds of the empty table and survives every write of the model
  class. The shape of the rows survives a creation and a deletion, and an update
  whose \<open>completed\<close> is a boolean.
\<close>

lemma primary_key_Nil: "primary_key []"
  by (simp add: primary_key_def)

lemma primary_key_insert:
  assumes "primary_key rows" "db_insert r rows = Inr rows'"
  shows "primary_key rows'"
proof -
  have n: "\<not> list_ex (\<lambda>r'. sql_eq (row_id r') (row_id (affinity r))) rows"
    and r: "rows' = rows @ [affinity r]"
    using assms(2) by (auto simp: db_insert_def split: if_splits)
  have "row_id (affinity r) \<noteq> SNull \<Longrightarrow> row_id (affinity r) \<notin> row_id ` {x \<in> set rows. row_id x \<noteq> SNull}"
    using n by (auto simp: list_ex_iff sql_eq_def)
  then show ?thesis using assms(1) by (auto simp: primary_key_def r)
qed

lemma ids_map:
  assumes "\<And>r. row_id (f r) = row_id r"
  shows "map row_id (filter (\<lambda>r. row_id r \<noteq> SNull) (map f rows))
       = map row_id (filter (\<lambda>r. row_id r \<noteq> SNull) rows)"
  by (induction rows) (simp_all add: assms)

lemma primary_key_update:
  assumes "primary_key rows" "db_update a v n rows = Inr rows'"
  shows "primary_key rows'"
proof -
  have "rows' = map (\<lambda>r. if sql_eq (row_id r) v then updated_row a n r else r) rows"
    using assms(2) by (simp add: db_update_def split: if_splits)
  then show ?thesis
    using assms(1) ids_map[of "\<lambda>r. if sql_eq (row_id r) v then updated_row a n r else r" rows]
    by (simp add: primary_key_def)
qed

lemma primary_key_delete:
  assumes "primary_key rows"
  shows "primary_key (db_delete v rows)"
proof -
  have "filter (\<lambda>r. row_id r \<noteq> SNull) (filter (\<lambda>r. \<not> sql_eq (row_id r) v) rows)
      = filter (\<lambda>r. \<not> sql_eq (row_id r) v) (filter (\<lambda>r. row_id r \<noteq> SNull) rows)"
    by (simp add: conj_commute)
  then show ?thesis
    using assms distinct_map_filter by (simp only: primary_key_def db_delete_def)
qed

lemma primary_key_create: "primary_key (todos st) \<Longrightarrow> primary_key (todos (snd (create d u n st)))"
  by (auto simp: create_def Let_def split: sum.splits dest: primary_key_insert)

lemma primary_key_update_todo: "primary_key (todos st) \<Longrightarrow> primary_key (todos (snd (update t b n st)))"
  by (auto simp: update_def Let_def split: sum.splits dest: primary_key_update)

lemma primary_key_delete_todo: "primary_key (todos st) \<Longrightarrow> primary_key (todos (snd (delete t st)))"
  by (simp add: delete_def primary_key_delete)

lemma row_ok_create:
  assumes "list_all row_ok (todos st)" "u \<noteq> []"
  shows "list_all row_ok (todos (snd (create (todoData ownerId ti d) u n st)))"
  using assms
  by (auto simp: create_def Let_def db_insert_def affinity_def row_ok_def Todo_def todoData_def js_or_def
        split: sum.splits if_splits)

lemma completed_fold_set_column:
  "row_completed (fold set_column a r) = row_completed r \<or>
   (\<exists>p \<in> set a. fst p = ''completed'' \<and> row_completed (fold set_column a r) = numeric_affinity (snd p))"
proof (induction a arbitrary: r)
  case Nil
  then show ?case by simp
next
  case (Cons x a)
  show ?case using Cons[of "set_column x r"] by (auto simp: set_column_def)
qed

lemma row_ok_updated:
  assumes "row_ok r" "\<forall>p \<in> set b. fst p = ''completed'' \<longrightarrow> snd p = JUndefined \<or> (\<exists>c. snd p = JBool c)"
  shows "row_ok (updated_row (map (\<lambda>p. (fst p, bind_param (snd p))) (filter supplied b)) n r)"
proof -
  let ?a = "map (\<lambda>p. (fst p, bind_param (snd p))) (filter supplied b)"
  have "\<forall>p \<in> set ?a. fst p = ''completed'' \<longrightarrow> snd p = SInt 0 \<or> snd p = SInt 1"
    using assms(2) by (fastforce simp: supplied_def)
  then have "row_completed (fold set_column ?a r) = SInt 0 \<or> row_completed (fold set_column ?a r) = SInt 1"
    using completed_fold_set_column[of ?a r] assms(1) by (auto simp: row_ok_def)
  then show ?thesis using assms(1) by (simp add: row_ok_def updated_row_def)
qed

lemma row_ok_update:
  assumes "list_all row_ok (todos st)"
    and "\<forall>p \<in> set b. fst p = ''completed'' \<longrightarrow> snd p = JUndefined \<or> (\<exists>c. snd p = JBool c)"
  shows "list_all row_ok (todos (snd (update t b n st)))"
  using assms row_ok_updated[OF _ assms(2)]
  by (auto simp: update_def Let_def db_update_def list_all_iff split: sum.splits if_splits)

lemma row_ok_delete: "list_all row_ok (todos st) \<Longrightarrow> list_all row_ok (todos (snd (delete t st)))"
  by (simp add: delete_def db_delete_def list_all_iff)

end
